theory Spec2Isabelle
  imports Complex_Main "HOL-Library.Word"
begin

unbundle bit_operations_syntax

section \<open>JavaScript values\<close>

text \<open>
  The application is TypeScript running in a browser.  A thrown value is a constructor of
  \<open>js_exn\<close>: the name of an \<^verbatim>\<open>Error\<close> instance, or \<open>NonError\<close> for a thrown value that
  is not one.  The message text of an error object belongs to whoever threw it and is
  supplied by the environment where the code reads it.  A computation that may throw
  returns \<open>js_exn + 'a\<close>.
\<close>

datatype js_exn =
    TypeError | RangeError | NotSupportedError | InvalidCharacterError | SyntaxError
  | Error | NonError

text \<open>
  A JavaScript number.  Every finite IEEE value is a rational; the audio code only
  multiplies and divides samples by \<open>32768 = 2^15\<close>, which is exact in binary floating point,
  so finite values are carried as exact rationals.
\<close>

datatype number = Finite rat | NaN | PosInf | NegInf

text \<open>Truncation towards zero, the integer part taken by the typed-array conversions.\<close>

definition trunc :: "rat \<Rightarrow> int" where
  "trunc r = (if 0 \<le> r then \<lfloor>r\<rfloor> else \<lceil>r\<rceil>)"

text \<open>
  \<^verbatim>\<open>ToInt16\<close>, applied when a number is stored into an \<^verbatim>\<open>Int16Array\<close>: not-a-number and
  the infinities become 0, a finite value is truncated and reduced modulo \<open>2^16\<close>.
\<close>

fun ToInt16 :: "number \<Rightarrow> 16 word" where
  "ToInt16 (Finite r) = word_of_int (trunc r)"
| "ToInt16 NaN = 0"
| "ToInt16 PosInf = 0"
| "ToInt16 NegInf = 0"

text \<open>The product \<^verbatim>\<open>x * 32768\<close> and the quotient \<^verbatim>\<open>k / 32768.0\<close> of the audio helpers.\<close>

fun times_32768 :: "number \<Rightarrow> number" where
  "times_32768 (Finite r) = Finite (r * 32768)"
| "times_32768 NaN = NaN"
| "times_32768 PosInf = PosInf"
| "times_32768 NegInf = NegInf"

definition int16_over_32768 :: "16 word \<Rightarrow> number" where
  "int16_over_32768 w = Finite (of_int (sint w) / 32768)"

text \<open>
  Typed-array views share the bytes of one buffer and read them in the byte order of the
  host.  The order is a parameter of every function that builds such a view.
\<close>

datatype endianness = LittleEndian | BigEndian

fun int16_bytes :: "endianness \<Rightarrow> 16 word \<Rightarrow> 8 word list" where
  "int16_bytes LittleEndian w = [ucast w, ucast (drop_bit 8 w)]"
| "int16_bytes BigEndian w = [ucast (drop_bit 8 w), ucast w]"

fun bytes_int16 :: "endianness \<Rightarrow> 8 word \<Rightarrow> 8 word \<Rightarrow> 16 word" where
  "bytes_int16 LittleEndian b0 b1 = push_bit 8 (ucast b1) OR ucast b0"
| "bytes_int16 BigEndian b0 b1 = push_bit 8 (ucast b0) OR ucast b1"

text \<open>\<^verbatim>\<open>new Uint8Array(int16.buffer)\<close>: the bytes of an \<^verbatim>\<open>Int16Array\<close>.\<close>

definition Uint8Array_of_buffer :: "endianness \<Rightarrow> 16 word list \<Rightarrow> 8 word list" where
  "Uint8Array_of_buffer host int16 = concat (map (int16_bytes host) int16)"

text \<open>
  \<^verbatim>\<open>new Int16Array(data.buffer)\<close>: a buffer whose byte length is odd is refused with a
  \<^verbatim>\<open>RangeError\<close>.
\<close>

fun int16_pairs :: "endianness \<Rightarrow> 8 word list \<Rightarrow> 16 word list" where
  "int16_pairs host (b0 # b1 # rest) = bytes_int16 host b0 b1 # int16_pairs host rest"
| "int16_pairs host _ = []"

definition Int16Array_of_buffer :: "endianness \<Rightarrow> 8 word list \<Rightarrow> js_exn + 16 word list" where
  "Int16Array_of_buffer host bytes =
     (if odd (length bytes) then Inl RangeError else Inr (int16_pairs host bytes))"

subsection \<open>The browser's base64 functions\<close>

text \<open>
  A string of the audio transport holds code units below 256 only, so it is a \<open>string\<close>.
  \<^verbatim>\<open>btoa\<close> and \<^verbatim>\<open>atob\<close> are built into the browser; they follow the HTML standard's
  forgiving-base64 encode and decode.
\<close>

definition b64_digit :: "nat \<Rightarrow> char" where
  "b64_digit n =
     (if n < 26 then char_of (65 + n)
      else if n < 52 then char_of (71 + n)
      else if n < 62 then char_of (n - 4)
      else if n = 62 then CHR ''+'' else CHR ''/'')"

definition b64_value :: "char \<Rightarrow> nat option" where
  "b64_value c =
     (let n = of_char c :: nat in
      if 65 \<le> n \<and> n \<le> 90 then Some (n - 65)
      else if 97 \<le> n \<and> n \<le> 122 then Some (n - 71)
      else if 48 \<le> n \<and> n \<le> 57 then Some (n + 4)
      else if n = 43 then Some 62
      else if n = 47 then Some 63
      else None)"

fun b64_groups :: "nat list \<Rightarrow> string" where
  "b64_groups [] = []"
| "b64_groups [a] =
     [b64_digit (a div 4), b64_digit (a mod 4 * 16), CHR ''='', CHR ''='']"
| "b64_groups [a, b] =
     [b64_digit (a div 4), b64_digit (a mod 4 * 16 + b div 16), b64_digit (b mod 16 * 4),
      CHR ''='']"
| "b64_groups (a # b # c # rest) =
     [b64_digit (a div 4), b64_digit (a mod 4 * 16 + b div 16),
      b64_digit (b mod 16 * 4 + c div 64), b64_digit (c mod 64)] @ b64_groups rest"

definition btoa :: "string \<Rightarrow> string" where
  "btoa binary = b64_groups (map of_char binary)"

definition ascii_whitespace :: "char \<Rightarrow> bool" where
  "ascii_whitespace c = ((of_char c :: nat) \<in> {9, 10, 12, 13, 32})"

text \<open>At most two trailing \<open>=\<close> are dropped, and only from a text whose length is a multiple of 4.\<close>

definition strip_padding :: "string \<Rightarrow> string" where
  "strip_padding s =
     (if length s mod 4 = 0 \<and> s \<noteq> [] \<and> last s = CHR ''='' then
        (if butlast s \<noteq> [] \<and> last (butlast s) = CHR ''='' then butlast (butlast s)
         else butlast s)
      else s)"

fun b64_bytes :: "nat list \<Rightarrow> nat list" where
  "b64_bytes (a # b # c # d # rest) =
     [a * 4 + b div 16, b mod 16 * 16 + c div 4, c mod 4 * 64 + d] @ b64_bytes rest"
| "b64_bytes [a, b, c] = [a * 4 + b div 16, b mod 16 * 16 + c div 4]"
| "b64_bytes [a, b] = [a * 4 + b div 16]"
| "b64_bytes _ = []"

definition atob :: "string \<Rightarrow> js_exn + string" where
  "atob base64 =
     (let s = strip_padding (filter (\<lambda>c. \<not> ascii_whitespace c) base64) in
      if length s mod 4 = 1 \<or> (\<exists>c \<in> set s. b64_value c = None) then Inl InvalidCharacterError
      else Inr (map char_of (b64_bytes (map (\<lambda>c. the (b64_value c)) s))))"

section \<open>Audio helper functions\<close>

text \<open>
  \<^verbatim>\<open>encode\<close>: the loop appends \<^verbatim>\<open>String.fromCharCode(bytes[i])\<close> for every index, then the
  binary string goes through \<^verbatim>\<open>btoa\<close>.
\<close>

function encode_loop :: "8 word list \<Rightarrow> nat \<Rightarrow> string \<Rightarrow> string" where
  "encode_loop bytes i binary =
     (if i < length bytes then encode_loop bytes (i + 1) (binary @ [char_of (unat (bytes ! i))])
      else binary)"
  by pat_completeness auto
termination
  by (relation "measure (\<lambda>(bytes, i, binary). length bytes - i)") auto

definition encode :: "8 word list \<Rightarrow> string" where
  "encode bytes = btoa (encode_loop bytes 0 [])"

text \<open>
  \<^verbatim>\<open>decode\<close>: \<^verbatim>\<open>atob\<close> may throw; the loop stores \<^verbatim>\<open>charCodeAt(i)\<close> into a zero-filled
  \<^verbatim>\<open>Uint8Array\<close> of the string's length.
\<close>

function decode_loop :: "string \<Rightarrow> nat \<Rightarrow> 8 word list \<Rightarrow> 8 word list" where
  "decode_loop binaryString i bytes =
     (if i < length binaryString
      then decode_loop binaryString (i + 1) (bytes[i := word_of_nat (of_char (binaryString ! i))])
      else bytes)"
  by pat_completeness auto
termination
  by (relation "measure (\<lambda>(binaryString, i, bytes). length binaryString - i)") auto

definition decode :: "string \<Rightarrow> js_exn + 8 word list" where
  "decode base64 =
     (case atob base64 of
        Inl e \<Rightarrow> Inl e
      | Inr binaryString \<Rightarrow>
          Inr (decode_loop binaryString 0 (replicate (length binaryString) 0)))"

text \<open>
  An \<^verbatim>\<open>AudioBuffer\<close>.  \<^verbatim>\<open>createBuffer\<close> refuses a zero channel count, frame count or
  sample rate with a \<^verbatim>\<open>NotSupportedError\<close>; the application only asks for one channel
  at 24 kHz, inside the range every browser supports.  New channel data is silence.
\<close>

record AudioBuffer =
  numberOfChannels :: nat
  length_frames :: nat
  sampleRate :: nat
  channelData :: "number list list"

definition createBuffer :: "nat \<Rightarrow> nat \<Rightarrow> nat \<Rightarrow> js_exn + AudioBuffer" where
  "createBuffer numChannels frames rate =
     (if numChannels = 0 \<or> frames = 0 \<or> rate = 0 then Inl NotSupportedError
      else Inr \<lparr>numberOfChannels = numChannels, length_frames = frames, sampleRate = rate,
                channelData = replicate numChannels (replicate frames (Finite 0))\<rparr>)"

definition duration :: "AudioBuffer \<Rightarrow> rat" where
  "duration buffer = of_nat (length_frames buffer) / of_nat (sampleRate buffer)"

text \<open>
  \<^verbatim>\<open>decodeAudioData\<close>.  \<^verbatim>\<open>frameCount\<close> is the quotient \<^verbatim>\<open>dataInt16.length / numChannels\<close>;
  when it is not whole, \<^verbatim>\<open>createBuffer\<close> truncates it and the one extra iteration of the
  inner loop writes past the end of the channel, which a typed array ignores, so the
  integer quotient gives the same buffer.
\<close>

function channel_loop :: "16 word list \<Rightarrow> nat \<Rightarrow> nat \<Rightarrow> nat \<Rightarrow> nat \<Rightarrow> number list \<Rightarrow> number list" where
  "channel_loop dataInt16 numChannels channel frameCount i samples =
     (if i < frameCount
      then channel_loop dataInt16 numChannels channel frameCount (i + 1)
             (samples[i := int16_over_32768 (dataInt16 ! (i * numChannels + channel))])
      else samples)"
  by pat_completeness auto
termination
  by (relation "measure (\<lambda>(d, n, c, frameCount, i, s). frameCount - i)") auto

function channels_loop :: "16 word list \<Rightarrow> nat \<Rightarrow> nat \<Rightarrow> nat \<Rightarrow> AudioBuffer \<Rightarrow> AudioBuffer" where
  "channels_loop dataInt16 numChannels frameCount channel buffer =
     (if channel < numChannels
      then channels_loop dataInt16 numChannels frameCount (channel + 1)
             (buffer\<lparr>channelData := (channelData buffer)
                [channel := channel_loop dataInt16 numChannels channel frameCount 0
                              (channelData buffer ! channel)]\<rparr>)
      else buffer)"
  by pat_completeness auto
termination
  by (relation "measure (\<lambda>(d, numChannels, f, channel, b). numChannels - channel)") auto

definition decodeAudioData :: "endianness \<Rightarrow> 8 word list \<Rightarrow> nat \<Rightarrow> nat \<Rightarrow> js_exn + AudioBuffer" where
  "decodeAudioData host bytes rate numChannels =
     (case Int16Array_of_buffer host bytes of
        Inl e \<Rightarrow> Inl e
      | Inr dataInt16 \<Rightarrow>
          (let frameCount = length dataInt16 div numChannels in
           case createBuffer numChannels frameCount rate of
             Inl e \<Rightarrow> Inl e
           | Inr buffer \<Rightarrow> Inr (channels_loop dataInt16 numChannels frameCount 0 buffer)))"

text \<open>\<^verbatim>\<open>createBlob\<close>: every sample times 32768 is stored into a zero-filled \<^verbatim>\<open>Int16Array\<close>.\<close>

record Blob =
  data :: string
  mimeType :: string

function createBlob_loop :: "number list \<Rightarrow> nat \<Rightarrow> 16 word list \<Rightarrow> 16 word list" where
  "createBlob_loop samples i int16 =
     (if i < length samples
      then createBlob_loop samples (i + 1) (int16[i := ToInt16 (times_32768 (samples ! i))])
      else int16)"
  by pat_completeness auto
termination
  by (relation "measure (\<lambda>(samples, i, int16). length samples - i)") auto

definition createBlob :: "endianness \<Rightarrow> number list \<Rightarrow> Blob" where
  "createBlob host samples =
     (let l = length samples;
          int16 = createBlob_loop samples 0 (replicate l 0)
      in \<lparr>data = encode (Uint8Array_of_buffer host int16),
          mimeType = ''audio/pcm;rate=16000''\<rparr>)"

section \<open>The tutor panel: live conversation\<close>

subsection \<open>State\<close>

datatype speaker = user | tutor

record Transcript =
  id_t :: int
  speaker :: speaker
  text_t :: string
  image_t :: "string option"

text \<open>
  How a promise settles.  \<open>Pending\<close> is a promise that never settles: a function awaiting
  it is never resumed.  The promise of \<^verbatim>\<open>ai.live.connect\<close> fulfils with a session.
\<close>

datatype 'a fate = Fulfils 'a | Rejects js_exn | Pending

record audio_refs =
  input_ctx :: "nat option"
  output_ctx :: "nat option"
  scriptProcessor :: "nat option"
  source :: "nat option"

record transcript_refs =
  currentInput :: string
  currentOutput :: string

text \<open>
  The state of the component: its React state, its refs, the variables \<^verbatim>\<open>nextStartTime\<close>
  and \<^verbatim>\<open>sources\<close> that the callbacks of the running \<^verbatim>\<open>startConversation\<close> close over, and
  the browser objects.  Sessions, tracks, audio contexts and audio nodes are numbered from
  one counter; a ref holds an object's number, so two refs to one object alias.  A media
  stream is the list of its tracks, and the session promise is the way it settles.  The browser side keeps, of each kind of object, the set
  of those still in use: sessions not closed, tracks not stopped, audio contexts whose
  \<^verbatim>\<open>state\<close> is not \<^verbatim>\<open>'closed'\<close>, nodes connected to an output, script processors with an
  \<^verbatim>\<open>onaudioprocess\<close> handler.  \<open>sent\<close> lists the chunks handed to \<^verbatim>\<open>sendRealtimeInput\<close> with
  their session, and \<open>started\<close> lists, in call order, every \<^verbatim>\<open>sourceNode.start(when)\<close> on
  the current output context: the node, \<open>when\<close>, and the duration of the node's buffer.  The chat
  fields (\<^verbatim>\<open>inputText\<close>, \<^verbatim>\<open>file\<close>, \<^verbatim>\<open>isSending\<close>) play no part in the conversation and are
  left out.  Clock values are exact rationals.
\<close>

record tutor_state =
  transcripts :: "Transcript list"
  error :: "string option"
  isRecording :: bool
  sessionPromiseRef :: "nat fate option"
  mediaStreamRef :: "nat list option"
  audioContextRefs :: audio_refs
  transcriptRefs :: transcript_refs
  nextStartTime :: rat
  sources :: "nat set"
  fresh :: nat
  open_sessions :: "nat set"
  sent :: "(nat \<times> Blob) list"
  live_tracks :: "nat set"
  open_contexts :: "nat set"
  connected :: "nat set"
  processing :: "nat set"
  started :: "(nat \<times> rat \<times> rat) list"
  console :: "string list"

definition no_refs :: audio_refs where
  "no_refs = \<lparr>input_ctx = None, output_ctx = None, scriptProcessor = None, source = None\<rparr>"

definition no_fragments :: transcript_refs where
  "no_fragments = \<lparr>currentInput = [], currentOutput = []\<rparr>"

text \<open>The component as first rendered, in a browser that holds no object yet.\<close>

definition initial_tutor :: tutor_state where
  "initial_tutor =
     \<lparr>transcripts = [], error = None, isRecording = False,
      sessionPromiseRef = None, mediaStreamRef = None, audioContextRefs = no_refs,
      transcriptRefs = no_fragments, nextStartTime = 0, sources = {},
      fresh = 0, open_sessions = {}, sent = [], live_tracks = {}, open_contexts = {},
      connected = {}, processing = {}, started = [], console = []\<rparr>"

text \<open>
  How an async function ends: it returns, it throws (its promise rejects), or it stays
  suspended at an \<^verbatim>\<open>await\<close> for ever.  The state it leaves is given beside.
\<close>

datatype outcome = Done | Threw js_exn | Stuck

subsection \<open>stopConversation\<close>

definition stop_track :: "nat \<Rightarrow> tutor_state \<Rightarrow> tutor_state" where
  "stop_track t s = s\<lparr>live_tracks := live_tracks s - {t}\<rparr>"

definition disconnect :: "nat \<Rightarrow> tutor_state \<Rightarrow> tutor_state" where
  "disconnect n s = s\<lparr>connected := connected s - {n}\<rparr>"

definition close_context :: "nat \<Rightarrow> tutor_state \<Rightarrow> tutor_state" where
  "close_context c s = s\<lparr>open_contexts := open_contexts s - {c}\<rparr>"

text \<open>The statements after the \<^verbatim>\<open>if (sessionPromiseRef.current)\<close> block.\<close>

definition release_media :: "tutor_state \<Rightarrow> tutor_state" where
  "release_media s =
     (case mediaStreamRef s of
        None \<Rightarrow> s
      | Some tracks \<Rightarrow> (fold stop_track tracks s)\<lparr>mediaStreamRef := None\<rparr>)"

definition release_audio :: "tutor_state \<Rightarrow> tutor_state" where
  "release_audio s =
     (let refs = audioContextRefs s;
          s1 = (case scriptProcessor refs of
                  None \<Rightarrow> s
                | Some n \<Rightarrow> (disconnect n s)\<lparr>processing := processing s - {n}\<rparr>);
          s2 = (case source refs of None \<Rightarrow> s1 | Some n \<Rightarrow> disconnect n s1);
          s3 = (case input_ctx refs of
                  None \<Rightarrow> s2
                | Some c \<Rightarrow> if c \<in> open_contexts s2 then close_context c s2 else s2);
          s4 = (case output_ctx refs of
                  None \<Rightarrow> s3
                | Some c \<Rightarrow> if c \<in> open_contexts s3 then close_context c s3 else s3)
      in s4\<lparr>audioContextRefs := no_refs\<rparr>)"

text \<open>
  The function from the point where \<^verbatim>\<open>await sessionPromiseRef.current\<close> settles, for the
  promise it awaits: the session is closed, or the rejection is caught and logged; then the
  ref is cleared and the rest runs.
\<close>

definition stop_resume :: "nat fate \<Rightarrow> tutor_state \<Rightarrow> outcome \<times> tutor_state" where
  "stop_resume p s =
     (case p of
        Pending \<Rightarrow> (Stuck, s)
      | Fulfils session \<Rightarrow>
          (Done, release_audio (release_media
             (s\<lparr>open_sessions := open_sessions s - {session}, sessionPromiseRef := None\<rparr>)))
      | Rejects e \<Rightarrow>
          (Done, release_audio (release_media
             (s\<lparr>console := console s @ [''Error closing session:''],
                sessionPromiseRef := None\<rparr>))))"

text \<open>\<^verbatim>\<open>stopConversation\<close>, run with nothing else scheduled between its start and its end.\<close>

definition stopConversation :: "tutor_state \<Rightarrow> outcome \<times> tutor_state" where
  "stopConversation s =
     (let s0 = s\<lparr>isRecording := False\<rparr> in
      case sessionPromiseRef s0 of
        None \<Rightarrow> (Done, release_audio (release_media s0))
      | Some p \<Rightarrow> stop_resume p s0)"

subsection \<open>startConversation\<close>

text \<open>
  What the browser and the SDK do when \<^verbatim>\<open>startConversation\<close> calls them: whether the
  \<^verbatim>\<open>GoogleGenAI\<close> constructor throws, whether \<^verbatim>\<open>getUserMedia\<close> rejects or gives a stream of
  some number of tracks, whether each \<^verbatim>\<open>AudioContext\<close> constructor throws, how the promise
  of \<^verbatim>\<open>ai.live.connect\<close> settles, and the \<^verbatim>\<open>message\<close> of each error object.
\<close>

record start_env =
  genai_throws :: "js_exn option"
  getUserMedia :: "js_exn + nat"
  input_ctx_throws :: "js_exn option"
  output_ctx_throws :: "js_exn option"
  connect_fate :: "unit fate"
  message_of :: "js_exn \<Rightarrow> string"

text \<open>The \<^verbatim>\<open>catch\<close> block: \<^verbatim>\<open>setError\<close> with the message, then \<^verbatim>\<open>stopConversation()\<close>.\<close>

definition caught_message :: "(js_exn \<Rightarrow> string) \<Rightarrow> js_exn \<Rightarrow> string" where
  "caught_message msg err =
     (if err = NonError then ''An unknown error occurred.'' else msg err)"

definition start_catch :: "start_env \<Rightarrow> js_exn \<Rightarrow> tutor_state \<Rightarrow> outcome \<times> tutor_state" where
  "start_catch env err s =
     stopConversation (s\<lparr>error := Some (caught_message (message_of env) err)\<rparr>)"

text \<open>
  \<^verbatim>\<open>sessionPromiseRef.current = ai.live.connect(...)\<close>.  \<^verbatim>\<open>connect\<close> is an async function: it
  never throws into the \<^verbatim>\<open>try\<close> block, it returns a promise.
\<close>

definition live_connect :: "unit fate \<Rightarrow> tutor_state \<Rightarrow> tutor_state" where
  "live_connect f s =
     (case f of
        Fulfils u \<Rightarrow>
          s\<lparr>fresh := fresh s + 1, open_sessions := insert (fresh s) (open_sessions s),
            sessionPromiseRef := Some (Fulfils (fresh s))\<rparr>
      | Rejects e \<Rightarrow> s\<lparr>sessionPromiseRef := Some (Rejects e)\<rparr>
      | Pending \<Rightarrow> s\<lparr>sessionPromiseRef := Some Pending\<rparr>)"

text \<open>
  The \<^verbatim>\<open>try\<close> block from the second \<^verbatim>\<open>AudioContext\<close> on.  Both contexts are stored into
  \<^verbatim>\<open>audioContextRefs.current\<close> only after both constructors have returned.
\<close>

definition start_contexts :: "start_env \<Rightarrow> tutor_state \<Rightarrow> outcome \<times> tutor_state" where
  "start_contexts env s =
     (case input_ctx_throws env of
        Some e \<Rightarrow> start_catch env e s
      | None \<Rightarrow>
         (let inputAudioContext = fresh s;
              s1 = s\<lparr>fresh := fresh s + 1,
                     open_contexts := insert inputAudioContext (open_contexts s)\<rparr>
          in case output_ctx_throws env of
               Some e \<Rightarrow> start_catch env e s1
             | None \<Rightarrow>
                (let outputAudioContext = fresh s1;
                     s2 = s1\<lparr>fresh := fresh s1 + 1,
                             open_contexts := insert outputAudioContext (open_contexts s1)\<rparr>;
                     s3 = s2\<lparr>audioContextRefs := (audioContextRefs s2)
                             \<lparr>input_ctx := Some inputAudioContext,
                              output_ctx := Some outputAudioContext\<rparr>\<rparr>;
                     s4 = s3\<lparr>nextStartTime := 0, sources := {}, started := []\<rparr>
                 in (Done, live_connect (connect_fate env) s4))))"

definition startConversation :: "start_env \<Rightarrow> tutor_state \<Rightarrow> outcome \<times> tutor_state" where
  "startConversation env s =
     (let s0 = s\<lparr>error := None, isRecording := True, transcriptRefs := no_fragments\<rparr> in
      case genai_throws env of
        Some e \<Rightarrow> start_catch env e s0
      | None \<Rightarrow>
         (case getUserMedia env of
            Inl e \<Rightarrow> start_catch env e s0
          | Inr n \<Rightarrow>
             (let tracks = [fresh s0 ..< fresh s0 + n] in
              start_contexts env
                (s0\<lparr>fresh := fresh s0 + n, live_tracks := live_tracks s0 \<union> set tracks,
                    mediaStreamRef := Some tracks\<rparr>))))"

subsection \<open>The callbacks of the live session\<close>

text \<open>
  \<^verbatim>\<open>onopen\<close>.  \<^verbatim>\<open>createMediaStreamSource\<close> refuses a null stream with a \<^verbatim>\<open>TypeError\<close>.
\<close>

definition onopen :: "tutor_state \<Rightarrow> outcome \<times> tutor_state" where
  "onopen s =
     (case mediaStreamRef s of
        None \<Rightarrow> (Threw TypeError, s)
      | Some tracks \<Rightarrow>
         (let source_node = fresh s;
              processor = fresh s + 1
          in (Done,
              s\<lparr>fresh := fresh s + 2,
                audioContextRefs := (audioContextRefs s)
                  \<lparr>source := Some source_node, scriptProcessor := Some processor\<rparr>,
                processing := insert processor (processing s),
                connected := insert processor (insert source_node (connected s))\<rparr>)))"

text \<open>
  \<^verbatim>\<open>onaudioprocess\<close>: the chunk is sent from a \<^verbatim>\<open>then\<close> callback of the session promise,
  which runs only if the promise fulfils.
\<close>

definition onaudioprocess :: "endianness \<Rightarrow> number list \<Rightarrow> tutor_state \<Rightarrow> tutor_state" where
  "onaudioprocess host frame s =
     (let pcmBlob = createBlob host frame in
      case sessionPromiseRef s of
        Some (Fulfils session) \<Rightarrow> s\<lparr>sent := sent s @ [(session, pcmBlob)]\<rparr>
      | _ \<Rightarrow> s)"

text \<open>
  A \<^verbatim>\<open>LiveServerMessage\<close>, as far as the handler reads it.  Every property the SDK
  declares optional is an option; \<open>None\<close> is \<^verbatim>\<open>undefined\<close>.  A transcription is its \<^verbatim>\<open>text\<close>,
  an inline data its \<^verbatim>\<open>data\<close>.
\<close>

datatype Part = Part (inlineData: "string option option")

datatype Content = Content (parts: "Part list option")

record ServerContent =
  outputTranscription :: "string option option"
  inputTranscription :: "string option option"
  turnComplete :: bool
  modelTurn :: "Content option"

datatype LiveServerMessage = LiveServerMessage (serverContent: "ServerContent option")

text \<open>
  What the handler reads from its surroundings while it runs: the clock of the output audio
  context, and the successive readings of \<^verbatim>\<open>Date.now()\<close>.
\<close>

record message_env =
  currentTime :: rat
  dateNow :: "nat \<Rightarrow> int"

text \<open>\<^verbatim>\<open>buffer += t.text\<close>: an absent text is appended as the word \<^verbatim>\<open>undefined\<close>.\<close>

definition append_text :: "string \<Rightarrow> string option \<Rightarrow> string" where
  "append_text buffer t = buffer @ (case t of None \<Rightarrow> ''undefined'' | Some x \<Rightarrow> x)"

definition note_output :: "LiveServerMessage \<Rightarrow> tutor_state \<Rightarrow> tutor_state" where
  "note_output message s =
     (case serverContent message of
        None \<Rightarrow> s
      | Some c \<Rightarrow>
         (case outputTranscription c of
            None \<Rightarrow> s
          | Some t \<Rightarrow>
             s\<lparr>transcriptRefs := (transcriptRefs s)
                 \<lparr>currentOutput := append_text (currentOutput (transcriptRefs s)) t\<rparr>\<rparr>))"

definition note_input :: "LiveServerMessage \<Rightarrow> tutor_state \<Rightarrow> tutor_state" where
  "note_input message s =
     (case serverContent message of
        None \<Rightarrow> s
      | Some c \<Rightarrow>
         (case inputTranscription c of
            None \<Rightarrow> s
          | Some t \<Rightarrow>
             s\<lparr>transcriptRefs := (transcriptRefs s)
                 \<lparr>currentInput := append_text (currentInput (transcriptRefs s)) t\<rparr>\<rparr>))"

definition signals_turn_complete :: "LiveServerMessage \<Rightarrow> bool" where
  "signals_turn_complete message =
     (case serverContent message of None \<Rightarrow> False | Some c \<Rightarrow> turnComplete c)"

text \<open>
  The body of \<^verbatim>\<open>if (turnComplete)\<close>.  The entries are built inside the \<^verbatim>\<open>setTranscripts\<close>
  updater; \<^verbatim>\<open>Date.now()\<close> is read once for each entry that is built.
\<close>

definition finish_turn :: "message_env \<Rightarrow> tutor_state \<Rightarrow> tutor_state" where
  "finish_turn env s =
     (let fullInput = currentInput (transcriptRefs s);
          fullOutput = currentOutput (transcriptRefs s)
      in s\<lparr>transcripts := transcripts s
             @ (if fullInput \<noteq> []
                then [\<lparr>id_t = dateNow env 0 + 1, speaker = user, text_t = fullInput,
                       image_t = None\<rparr>]
                else [])
             @ (if fullOutput \<noteq> []
                then [\<lparr>id_t = dateNow env (if fullInput \<noteq> [] then 1 else 0) + 2,
                       speaker = tutor, text_t = fullOutput, image_t = None\<rparr>]
                else []),
           transcriptRefs := no_fragments\<rparr>)"

text \<open>
  \<^verbatim>\<open>message.serverContent?.modelTurn?.parts[0]?.inlineData.data\<close>: reading \<^verbatim>\<open>[0]\<close> of an
  absent \<^verbatim>\<open>parts\<close>, or \<^verbatim>\<open>data\<close> of an absent \<^verbatim>\<open>inlineData\<close>, throws a \<^verbatim>\<open>TypeError\<close>.
\<close>

definition message_audio :: "LiveServerMessage \<Rightarrow> js_exn + string option" where
  "message_audio message =
     (case serverContent message of
        None \<Rightarrow> Inr None
      | Some c \<Rightarrow>
         (case modelTurn c of
            None \<Rightarrow> Inr None
          | Some turn \<Rightarrow>
             (case parts turn of
                None \<Rightarrow> Inl TypeError
              | Some [] \<Rightarrow> Inr None
              | Some (p # ps) \<Rightarrow>
                 (case inlineData p of None \<Rightarrow> Inl TypeError | Some d \<Rightarrow> Inr d))))"

text \<open>
  The body of \<^verbatim>\<open>if (audioData)\<close>, in its two halves: the statement before the \<^verbatim>\<open>await\<close>
  raises the clock to the context's time; the statements after it create the source node,
  start it at the clock and advance the clock by the buffer's duration.  A chunk that fails
  to decode throws and schedules nothing.
\<close>

definition raise_clock :: "message_env \<Rightarrow> tutor_state \<Rightarrow> tutor_state" where
  "raise_clock env s = s\<lparr>nextStartTime := max (nextStartTime s) (currentTime env)\<rparr>"

definition start_chunk :: "AudioBuffer \<Rightarrow> tutor_state \<Rightarrow> tutor_state" where
  "start_chunk audioBuffer s =
     (let sourceNode = fresh s in
      s\<lparr>fresh := fresh s + 1,
        connected := insert sourceNode (connected s),
        started := started s @ [(sourceNode, nextStartTime s, duration audioBuffer)],
        nextStartTime := nextStartTime s + duration audioBuffer,
        sources := insert sourceNode (sources s)\<rparr>)"

definition schedule_audio ::
    "endianness \<Rightarrow> message_env \<Rightarrow> string \<Rightarrow> tutor_state \<Rightarrow> outcome \<times> tutor_state" where
  "schedule_audio host env audioData s =
     (let s1 = raise_clock env s in
      case decode audioData of
        Inl e \<Rightarrow> (Threw e, s1)
      | Inr bytes \<Rightarrow>
         (case decodeAudioData host bytes 24000 1 of
            Inl e \<Rightarrow> (Threw e, s1)
          | Inr audioBuffer \<Rightarrow> (Done, start_chunk audioBuffer s1)))"

text \<open>
  \<^verbatim>\<open>onmessage\<close>.  Its one \<^verbatim>\<open>await\<close> is on \<^verbatim>\<open>decodeAudioData\<close>, an async function with no
  \<^verbatim>\<open>await\<close> of its own: the handler is resumed before any other event is delivered, so it
  is one step.
\<close>

definition onmessage ::
    "endianness \<Rightarrow> message_env \<Rightarrow> LiveServerMessage \<Rightarrow> tutor_state \<Rightarrow> outcome \<times> tutor_state" where
  "onmessage host env message s =
     (let s1 = note_input message (note_output message s);
          s2 = (if signals_turn_complete message then finish_turn env s1 else s1)
      in case message_audio message of
           Inl e \<Rightarrow> (Threw e, s2)
         | Inr None \<Rightarrow> (Done, s2)
         | Inr (Some audioData) \<Rightarrow>
             if audioData = [] then (Done, s2) else schedule_audio host env audioData s2)"

text \<open>The \<^verbatim>\<open>ended\<close> listener of a playback node.\<close>

definition source_ended :: "nat \<Rightarrow> tutor_state \<Rightarrow> tutor_state" where
  "source_ended sourceNode s = s\<lparr>sources := sources s - {sourceNode}\<rparr>"

definition onerror :: "tutor_state \<Rightarrow> outcome \<times> tutor_state" where
  "onerror s = stopConversation (s\<lparr>error := Some ''An error occurred during the session.''\<rparr>)"

definition handleToggleRecording :: "start_env \<Rightarrow> tutor_state \<Rightarrow> outcome \<times> tutor_state" where
  "handleToggleRecording env s =
     (if isRecording s then stopConversation s else startConversation env s)"

section \<open>The content service\<close>

text \<open>
  A call of \<^verbatim>\<open>ai.models.generateContent\<close> either fails or replies.  Of the response the
  code reads \<^verbatim>\<open>text\<close> and \<^verbatim>\<open>candidates\<close>.  An async function of the service settles
  with a value or rejects; beside its result stand the lines it wrote with \<^verbatim>\<open>console.error\<close>.
\<close>

datatype Candidate = Candidate (content: "Content option")

record GenerateContentResponse =
  text_r :: "string option"
  candidates :: "Candidate list option"

datatype 'a reply = Fails js_exn | Replies 'a

datatype 'a settled = Resolved 'a | Rejected js_exn

record Question =
  id_q :: int
  questionText :: string

type_synonym Exam = "Question list"

record Feedback =
  questionId :: int
  isCorrect :: bool
  explanation :: string

record ExamResult =
  score :: rat
  feedback :: "Feedback list"

text \<open>\<^verbatim>\<open>String.prototype.trim\<close>, on strings of code units below 256.\<close>

definition js_space :: "char \<Rightarrow> bool" where
  "js_space c = ((of_char c :: nat) \<in> {9, 10, 11, 12, 13, 32, 160})"

definition trim :: "string \<Rightarrow> string" where
  "trim s = rev (dropWhile js_space (rev (dropWhile js_space s)))"

text \<open>
  The \<^verbatim>\<open>try\<close> block shared by \<^verbatim>\<open>generateExam\<close> and \<^verbatim>\<open>gradeExam\<close>: \<^verbatim>\<open>response.text.trim()\<close>
  throws a \<^verbatim>\<open>TypeError\<close> when the response has no text, and \<^verbatim>\<open>JSON.parse\<close> may throw.
  \<^verbatim>\<open>JSON.parse\<close> followed by the cast to the result type is the parameter \<open>parse\<close>.
\<close>

definition parsed_reply ::
    "(string \<Rightarrow> js_exn + 'a) \<Rightarrow> GenerateContentResponse reply \<Rightarrow> js_exn + 'a" where
  "parsed_reply parse r =
     (case r of
        Fails e \<Rightarrow> Inl e
      | Replies response \<Rightarrow>
         (case text_r response of
            None \<Rightarrow> Inl TypeError
          | Some t \<Rightarrow> parse (trim t)))"

definition fallback_exam :: Exam where
  "fallback_exam = [\<lparr>id_q = 1, questionText = ''Could not generate an exam. Please try again.''\<rparr>]"

text \<open>
  \<^verbatim>\<open>generateExam\<close>.  The difficulty enters the prompt only; \<open>generateContent\<close> is the remote
  model's answer to the request for that difficulty.
\<close>

definition generateExam ::
    "(string \<Rightarrow> js_exn + Exam) \<Rightarrow> (int \<Rightarrow> GenerateContentResponse reply) \<Rightarrow> int
     \<Rightarrow> Exam settled \<times> string list" where
  "generateExam parse generateContent difficulty =
     (case parsed_reply parse (generateContent difficulty) of
        Inr exam \<Rightarrow> (Resolved exam, [])
      | Inl e \<Rightarrow> (Resolved fallback_exam, [''Error generating exam:'']))"

record formatted_answer =
  question :: string
  answer :: string

definition formattedAnswers :: "Exam \<Rightarrow> (int \<rightharpoonup> string) \<Rightarrow> formatted_answer list" where
  "formattedAnswers exam answers =
     map (\<lambda>q. \<lparr>question = questionText q,
                answer = (case answers (id_q q) of
                            None \<Rightarrow> ''No answer provided''
                          | Some a \<Rightarrow> if a = [] then ''No answer provided'' else a)\<rparr>) exam"

definition fallback_result :: "Exam \<Rightarrow> ExamResult" where
  "fallback_result exam =
     \<lparr>score = 0,
      feedback = map (\<lambda>q. \<lparr>questionId = id_q q, isCorrect = False,
                            explanation = ''Sorry, there was an error grading this question.''\<rparr>)
                   exam\<rparr>"

text \<open>
  \<^verbatim>\<open>gradeExam\<close>.  The questions and answers enter the prompt as the JSON text of
  \<^verbatim>\<open>formattedAnswers\<close>; \<open>generateContent\<close> is the remote model's answer to them.
\<close>

definition gradeExam ::
    "(string \<Rightarrow> js_exn + ExamResult) \<Rightarrow> (formatted_answer list \<Rightarrow> GenerateContentResponse reply)
     \<Rightarrow> Exam \<Rightarrow> (int \<rightharpoonup> string) \<Rightarrow> ExamResult settled \<times> string list" where
  "gradeExam parse generateContent exam answers =
     (case parsed_reply parse (generateContent (formattedAnswers exam answers)) of
        Inr result \<Rightarrow> (Resolved result, [])
      | Inl e \<Rightarrow> (Resolved (fallback_result exam), [''Error grading exam:'']))"

text \<open>\<^verbatim>\<open>response.candidates?.[0]?.content?.parts?.[0]?.inlineData?.data\<close>.\<close>

definition first_audio :: "GenerateContentResponse \<Rightarrow> string option" where
  "first_audio response =
     (case candidates response of
        None \<Rightarrow> None
      | Some [] \<Rightarrow> None
      | Some (c # cs) \<Rightarrow>
         (case content c of
            None \<Rightarrow> None
          | Some ct \<Rightarrow>
             (case parts ct of
                None \<Rightarrow> None
              | Some [] \<Rightarrow> None
              | Some (p # ps) \<Rightarrow> (case inlineData p of None \<Rightarrow> None | Some d \<Rightarrow> d))))"

text \<open>The \<^verbatim>\<open>try\<close> block of \<^verbatim>\<open>generateSpeech\<close>: an absent or empty payload is thrown as an error.\<close>

definition speech_of_reply :: "GenerateContentResponse reply \<Rightarrow> js_exn + string" where
  "speech_of_reply r =
     (case r of
        Fails e \<Rightarrow> Inl e
      | Replies response \<Rightarrow>
         (case first_audio response of
            None \<Rightarrow> Inl Error
          | Some base64Audio \<Rightarrow> if base64Audio = [] then Inl Error else Inr base64Audio))"

definition generateSpeech :: "GenerateContentResponse reply \<Rightarrow> string option settled \<times> string list" where
  "generateSpeech r =
     (case speech_of_reply r of
        Inr base64Audio \<Rightarrow> (Resolved (Some base64Audio), [])
      | Inl e \<Rightarrow> (Resolved None, [''Error generating speech:'']))"

section \<open>The exam panel: playing an explanation\<close>

text \<open>
  The audio state of the panel: two pieces of React state, two refs, and the browser objects
  they refer to, numbered from one counter: audio contexts not closed, source nodes
  connected to the destination, source nodes started and neither stopped nor ended.  The
  exam, the answers and \<^verbatim>\<open>isLoading\<close> play no part in playback and are left out.
\<close>

record exam_state =
  audioLoading :: "int option"
  audioPlaying :: "int option"
  audioContextRef :: "nat option"
  audioSourceRef :: "nat option"
  e_fresh :: nat
  e_open_contexts :: "nat set"
  e_connected :: "nat set"
  e_playing :: "nat set"
  e_console :: "string list"

definition initial_exam :: exam_state where
  "initial_exam =
     \<lparr>audioLoading = None, audioPlaying = None, audioContextRef = None, audioSourceRef = None,
      e_fresh = 0, e_open_contexts = {}, e_connected = {}, e_playing = {}, e_console = []\<rparr>"

definition stopCurrentAudio :: "exam_state \<Rightarrow> exam_state" where
  "stopCurrentAudio s =
     (let s1 = (case audioSourceRef s of
                  None \<Rightarrow> s
                | Some n \<Rightarrow> s\<lparr>e_playing := e_playing s - {n}, e_connected := e_connected s - {n},
                              audioSourceRef := None\<rparr>)
      in s1\<lparr>audioPlaying := None\<rparr>)"

text \<open>
  \<^verbatim>\<open>handlePlayExplanation\<close> up to \<^verbatim>\<open>await generateSpeech(text)\<close>.  The result says whether
  the call goes on to ask for speech; it does not when the question was playing.
\<close>

definition play_begin :: "int \<Rightarrow> exam_state \<Rightarrow> bool \<times> exam_state" where
  "play_begin qid s =
     (if audioPlaying s = Some qid then (False, stopCurrentAudio s)
      else (True, (stopCurrentAudio s)\<lparr>audioLoading := Some qid\<rparr>))"

text \<open>The audio context of the panel, made on first use and again after it was closed.\<close>

definition ensure_context :: "exam_state \<Rightarrow> exam_state" where
  "ensure_context s =
     (case audioContextRef s of
        Some c \<Rightarrow>
          if c \<in> e_open_contexts s then s
          else s\<lparr>e_fresh := e_fresh s + 1, e_open_contexts := insert (e_fresh s) (e_open_contexts s),
                 audioContextRef := Some (e_fresh s)\<rparr>
      | None \<Rightarrow>
          s\<lparr>e_fresh := e_fresh s + 1, e_open_contexts := insert (e_fresh s) (e_open_contexts s),
            audioContextRef := Some (e_fresh s)\<rparr>)"

text \<open>The \<^verbatim>\<open>try\<close> block after the speech request has returned \<open>audioData\<close>.\<close>

definition play_try :: "endianness \<Rightarrow> int \<Rightarrow> string option \<Rightarrow> exam_state \<Rightarrow> js_exn option \<times> exam_state" where
  "play_try host qid audioData s =
     (case audioData of
        None \<Rightarrow> (Some Error, s)
      | Some base64 \<Rightarrow>
          if base64 = [] then (Some Error, s)
          else
            (let s1 = ensure_context s in
             case decode base64 of
               Inl e \<Rightarrow> (Some e, s1)
             | Inr decoded \<Rightarrow>
                 (case decodeAudioData host decoded 24000 1 of
                    Inl e \<Rightarrow> (Some e, s1)
                  | Inr audioBuffer \<Rightarrow>
                      (let sourceNode = e_fresh s1 in
                       (None,
                        s1\<lparr>e_fresh := e_fresh s1 + 1,
                           e_connected := insert sourceNode (e_connected s1),
                           e_playing := insert sourceNode (e_playing s1),
                           audioSourceRef := Some sourceNode,
                           audioPlaying := Some qid\<rparr>)))))"

text \<open>The function from the point where the speech request returns: try, catch, finally.\<close>

definition play_resume :: "endianness \<Rightarrow> int \<Rightarrow> string option \<Rightarrow> exam_state \<Rightarrow> exam_state" where
  "play_resume host qid audioData s =
     (case play_try host qid audioData s of
        (None, s1) \<Rightarrow> s1\<lparr>audioLoading := None\<rparr>
      | (Some e, s1) \<Rightarrow>
          s1\<lparr>e_console := e_console s1 @ [''Error playing explanation:''], audioLoading := None\<rparr>)"

text \<open>
  What \<^verbatim>\<open>await generateSpeech(text)\<close> gives the handler.  The lines \<^verbatim>\<open>generateSpeech\<close> logs
  reach the same console.  A rejection would be thrown inside the \<^verbatim>\<open>try\<close> block and reach the
  \<^verbatim>\<open>catch\<close> block that a null result reaches.
\<close>

definition speech_returned :: "string option settled \<times> string list \<Rightarrow> exam_state \<Rightarrow> string option \<times> exam_state" where
  "speech_returned r s =
     (case fst r of
        Resolved audioData \<Rightarrow> (audioData, s\<lparr>e_console := e_console s @ snd r\<rparr>)
      | Rejected e \<Rightarrow> (None, s\<lparr>e_console := e_console s @ snd r\<rparr>))"

text \<open>\<^verbatim>\<open>handlePlayExplanation\<close>, run with nothing else scheduled while it awaits the speech.\<close>

definition handlePlayExplanation ::
    "endianness \<Rightarrow> GenerateContentResponse reply \<Rightarrow> int \<Rightarrow> exam_state \<Rightarrow> exam_state" where
  "handlePlayExplanation host r qid s =
     (case play_begin qid s of
        (False, s1) \<Rightarrow> s1
      | (True, s1) \<Rightarrow>
          (case speech_returned (generateSpeech r) s1 of
             (audioData, s2) \<Rightarrow> play_resume host qid audioData s2))"

text \<open>The \<^verbatim>\<open>onended\<close> handler of a source node, run when its playback has finished.\<close>

definition onended :: "nat \<Rightarrow> exam_state \<Rightarrow> exam_state" where
  "onended sourceNode s =
     (let s1 = s\<lparr>e_playing := e_playing s - {sourceNode}\<rparr> in
      if audioSourceRef s1 = Some sourceNode
      then s1\<lparr>audioPlaying := None, audioSourceRef := None\<rparr>
      else s1)"


section \<open>The application: difficulty level\<close>

record app_state =
  difficultyLevel :: int
  currentExam :: "Exam option"
  examResult :: "ExamResult option"

definition initial_app :: app_state where
  "initial_app = \<lparr>difficultyLevel = 1, currentExam = None, examResult = None\<rparr>"

definition handleExamComplete :: "ExamResult \<Rightarrow> Exam \<Rightarrow> app_state \<Rightarrow> app_state" where
  "handleExamComplete result exam s =
     (let s1 = s\<lparr>examResult := Some result, currentExam := Some exam\<rparr> in
      if score result > 70
      then s1\<lparr>difficultyLevel := min (difficultyLevel s1 + 1) 10\<rparr>
      else s1)"

definition handleNewExam :: "app_state \<Rightarrow> app_state" where
  "handleNewExam s = s\<lparr>currentExam := None, examResult := None\<rparr>"

text \<open>The two things the exam panel can ask of the application, and a run of them.\<close>

datatype app_event = ExamComplete ExamResult Exam | NewExam

fun app_step :: "app_event \<Rightarrow> app_state \<Rightarrow> app_state" where
  "app_step (ExamComplete result exam) s = handleExamComplete result exam s"
| "app_step NewExam s = handleNewExam s"

definition app_run :: "app_event list \<Rightarrow> app_state \<Rightarrow> app_state" where
  "app_run events s = fold app_step events s"

section \<open>Notions used to state the properties\<close>

text \<open>
  A run of the message handler over the messages of a session, each with what the handler
  reads while it runs.  A handler that throws leaves the state it had reached.
\<close>

fun deliver :: "endianness \<Rightarrow> (message_env \<times> LiveServerMessage) list \<Rightarrow> tutor_state \<Rightarrow> tutor_state" where
  "deliver host [] s = s"
| "deliver host ((env, message) # rest) s = deliver host rest (snd (onmessage host env message s))"

text \<open>
  A list of started chunks is back to back from time \<open>t\<close> when the first starts no earlier
  than \<open>t\<close> and each later one no earlier than the end of the one before; \<open>end_of\<close> is the
  end of the last chunk.
\<close>

fun back_to_back :: "rat \<Rightarrow> (nat \<times> rat \<times> rat) list \<Rightarrow> bool" where
  "back_to_back t [] = True"
| "back_to_back t ((n, w, d) # chunks) = (t \<le> w \<and> 0 \<le> d \<and> back_to_back (w + d) chunks)"

fun end_of :: "rat \<Rightarrow> (nat \<times> rat \<times> rat) list \<Rightarrow> rat" where
  "end_of t [] = t"
| "end_of t ((n, w, d) # chunks) = end_of (w + d) chunks"

text \<open>
  The two halves of the audio part as steps of their own, and a run of such steps in any
  order: what the clock and the list of started chunks go through when the halves of
  several handler runs interleave.
\<close>

datatype clock_step = Raise message_env | Start AudioBuffer

fun run_step :: "clock_step \<Rightarrow> tutor_state \<Rightarrow> tutor_state" where
  "run_step (Raise env) s = raise_clock env s"
| "run_step (Start audioBuffer) s = start_chunk audioBuffer s"

text \<open>Every chunk starts no earlier than \<open>acc\<close> plus the durations of the chunks before it.\<close>

fun after_prior_durations :: "rat \<Rightarrow> (nat \<times> rat \<times> rat) list \<Rightarrow> bool" where
  "after_prior_durations acc [] = True"
| "after_prior_durations acc ((n, w, d) # chunks) =
     (acc \<le> w \<and> after_prior_durations (acc + d) chunks)"

text \<open>
  The transport format in the words of the specification.  A sample is converted to 16-bit
  signed PCM by a signed 16-bit integer that stands for it: the integer over 32768 is
  within 1/32768 of the sample, the bound of 16-bit quantization.  Nothing else is asked of
  the conversion, so rounding, truncation and clipping at full scale all qualify.  The
  integer is laid out low byte first, in two's complement.
\<close>

definition pcm16 :: "number \<Rightarrow> int \<Rightarrow> bool" where
  "pcm16 x v =
     (case x of
        Finite r \<Rightarrow> - 32768 \<le> v \<and> v \<le> 32767 \<and> \<bar>r - of_int v / 32768\<bar> \<le> 1 / 32768
      | _ \<Rightarrow> False)"

definition little_endian :: "int \<Rightarrow> nat list" where
  "little_endian v = [nat (v mod 256), nat (v div 256 mod 256)]"

text \<open>
  Base64 as RFC 4648 defines it: the bytes are read as six-bit values, three bytes to four
  values, the last group filled with zero bits; each value selects a character of the
  alphabet; one \<open>=\<close> is appended for a last group of two bytes and two for one of one byte.
\<close>

fun sextets :: "nat list \<Rightarrow> nat list" where
  "sextets [] = []"
| "sextets [a] = [a div 4, a mod 4 * 16]"
| "sextets [a, b] = [a div 4, a mod 4 * 16 + b div 16, b mod 16 * 4]"
| "sextets (a # b # c # rest) =
     [a div 4, a mod 4 * 16 + b div 16, b mod 16 * 4 + c div 64, c mod 64] @ sextets rest"

fun padding :: "nat list \<Rightarrow> nat" where
  "padding [] = 0"
| "padding [a] = 2"
| "padding [a, b] = 1"
| "padding (a # b # c # rest) = padding rest"

definition base64_alphabet :: string where
  "base64_alphabet = ''ABCDEFGHIJKLMNOPQRSTUVWXYZabcdefghijklmnopqrstuvwxyz0123456789+/''"

definition base64 :: "nat list \<Rightarrow> string" where
  "base64 bytes =
     map (\<lambda>v. base64_alphabet ! v) (sextets bytes) @ replicate (padding bytes) (CHR ''='')"

definition base64_pcm16le :: "int list \<Rightarrow> string" where
  "base64_pcm16le vs = base64 (concat (map little_endian vs))"

text \<open>
  A frame sent and played back: \<^verbatim>\<open>createBlob\<close>, then \<^verbatim>\<open>decode\<close> and \<^verbatim>\<open>decodeAudioData\<close> with
  one channel, as the two ends of the transport apply them; the result is the channel's
  samples.
\<close>

definition round_trip :: "endianness \<Rightarrow> number list \<Rightarrow> js_exn + number list" where
  "round_trip host samples =
     (case decode (data (createBlob host samples)) of
        Inl e \<Rightarrow> Inl e
      | Inr bytes \<Rightarrow>
         (case decodeAudioData host bytes 24000 1 of
            Inl e \<Rightarrow> Inl e
          | Inr buffer \<Rightarrow> Inr (concat (channelData buffer))))"

text \<open>
  A browser in which every call of \<^verbatim>\<open>startConversation\<close> succeeds and the microphone has
  one track, and the state of the panel once such a session is open.
\<close>

definition working_browser :: start_env where
  "working_browser =
     \<lparr>genai_throws = None, getUserMedia = Inr 1, input_ctx_throws = None,
      output_ctx_throws = None, connect_fate = Fulfils (), message_of = (\<lambda>e. ''failed'')\<rparr>"

definition open_session :: tutor_state where
  "open_session = snd (onopen (snd (startConversation working_browser initial_tutor)))"


text \<open>No lifecycle reference of the tutor panel holds anything.\<close>

definition holds_nothing :: "tutor_state \<Rightarrow> bool" where
  "holds_nothing s =
     (sessionPromiseRef s = None \<and> mediaStreamRef s = None \<and> audioContextRefs s = no_refs)"


section \<open>Properties of the audio helpers\<close>

lemma createBlob_loop_map:
  "i \<le> length samples \<Longrightarrow> length int16 = length samples \<Longrightarrow>
   createBlob_loop samples i int16 =
     take i int16 @ map (\<lambda>x. ToInt16 (times_32768 x)) (drop i samples)"
proof (induction samples i int16 rule: createBlob_loop.induct)
  case (1 samples i int16)
  show ?case
  proof (cases "i < length samples")
    case True
    have "createBlob_loop samples i int16 =
          createBlob_loop samples (i + 1) (int16[i := ToInt16 (times_32768 (samples ! i))])"
      using True by (subst createBlob_loop.simps) simp
    also have "\<dots> = take (i + 1) (int16[i := ToInt16 (times_32768 (samples ! i))]) @
                 map (\<lambda>x. ToInt16 (times_32768 x)) (drop (i + 1) samples)"
      using True "1.prems" by (intro "1.IH") auto
    also have "\<dots> = take i int16 @ map (\<lambda>x. ToInt16 (times_32768 x)) (drop i samples)"
      using True "1.prems"
      by (simp add: take_Suc_conv_app_nth Cons_nth_drop_Suc [symmetric])
    finally show ?thesis .
  next
    case False
    with "1.prems" show ?thesis by (subst createBlob_loop.simps) simp
  qed
qed

lemma encode_loop_map:
  "encode_loop bytes i binary = binary @ map (\<lambda>b. char_of (unat b)) (drop i bytes)"
proof (induction bytes i binary rule: encode_loop.induct)
  case (1 bytes i binary)
  show ?case
  proof (cases "i < length bytes")
    case True
    then show ?thesis
      using "1.IH" by (subst encode_loop.simps) (simp add: Cons_nth_drop_Suc [symmetric])
  next
    case False
    then show ?thesis by (subst encode_loop.simps) simp
  qed
qed

lemma of_char_char_of_unat: "(of_char (char_of (unat (b :: 8 word))) :: nat) = unat b"
proof -
  have "unat b < 2 ^ LENGTH(8)" by (rule unsigned_less)
  then show ?thesis by (simp add: of_char_of)
qed

lemma encode_eq: "encode bytes = b64_groups (map unat bytes)"
proof -
  have "encode_loop bytes 0 [] = map (\<lambda>b. char_of (unat b)) bytes"
    unfolding encode_loop_map by (simp only: drop_0 append_Nil)
  moreover have "map of_char (map (\<lambda>b. char_of (unat b)) bytes) = map unat bytes"
    by (induction bytes) (simp_all only: list.map of_char_char_of_unat)
  ultimately show ?thesis unfolding encode_def btoa_def by (simp only:)
qed

lemma low_byte: "unat (ucast (word_of_int n :: 16 word) :: 8 word) = nat (n mod 256)"
proof -
  have "uint (ucast (word_of_int n :: 16 word) :: 8 word) = take_bit 8 (take_bit 16 n)"
    by (simp add: unsigned_ucast_eq uint_word_of_int_eq)
  also have "\<dots> = take_bit 8 n" by simp
  also have "\<dots> = n mod 256" by (simp add: take_bit_eq_mod)
  finally show ?thesis by (simp add: unat_eq_nat_uint del: nat_uint_eq)
qed

lemma high_byte:
  "unat (ucast (drop_bit 8 (word_of_int n :: 16 word)) :: 8 word) = nat (n div 256 mod 256)"
proof -
  have "uint (ucast (drop_bit 8 (word_of_int n :: 16 word)) :: 8 word)
        = take_bit 8 (drop_bit 8 (take_bit 16 n))"
    by (simp add: unsigned_ucast_eq unsigned_drop_bit_eq uint_word_of_int_eq)
  also have "\<dots> = take_bit 8 (drop_bit 8 n)"
    by (simp add: drop_bit_take_bit)
  also have "\<dots> = n div 256 mod 256"
    by (simp add: take_bit_eq_mod drop_bit_eq_div)
  finally show ?thesis by (simp add: unat_eq_nat_uint del: nat_uint_eq)
qed

subsection \<open>Sending a frame and playing it back\<close>

lemma b64_value_digit: "n < 64 \<Longrightarrow> b64_value (b64_digit n) = Some n"
  by (auto simp: b64_value_def b64_digit_def of_char_of Let_def)

lemma b64_digit_not_pad: "b64_digit n \<noteq> CHR ''=''"
proof
  assume "b64_digit n = CHR ''=''"
  then have "(of_char (b64_digit n) :: nat) = of_char (CHR ''='')" by simp
  then show False
    by (auto simp: b64_digit_def of_char_of split: if_splits)
qed

lemma b64_digit_not_space: "\<not> ascii_whitespace (b64_digit n)"
  by (auto simp: ascii_whitespace_def b64_digit_def of_char_of split: if_splits)

lemma pad_not_space: "\<not> ascii_whitespace (CHR ''='')"
  by (simp add: ascii_whitespace_def)

lemma b64_groups_split:
  "b64_groups bytes = map b64_digit (sextets bytes) @ replicate (padding bytes) (CHR ''='')"
  by (induction bytes rule: sextets.induct) (simp_all add: numeral_2_eq_2)

lemma sextets_bounded:
  "\<forall>b \<in> set bytes. b < 256 \<Longrightarrow> \<forall>v \<in> set (sextets bytes). v < 64"
  by (induction bytes rule: sextets.induct) auto

lemma sextets_length:
  "(length (sextets bytes) + padding bytes) mod 4 = 0" "padding bytes \<le> 2"
  "length (sextets bytes) mod 4 \<noteq> 1"
  by (induction bytes rule: sextets.induct) (simp_all add: mod_Suc)

lemma b64_bytes_sextets:
  "\<forall>b \<in> set bytes. b < 256 \<Longrightarrow> b64_bytes (sextets bytes) = bytes"
proof (induction bytes rule: sextets.induct)
  case 1
  then show ?case by simp
next
  case (2 a)
  then show ?case by simp
next
  case (3 a b)
  then have "b < 256" by simp
  then have "b div 16 < 16" by simp
  then show ?case by simp
next
  case (4 a b c rest)
  then have "b < 256" "c < 256" by simp_all
  then have "b div 16 < 16" "c div 64 < 4" by simp_all
  with 4 show ?case by simp
qed

lemma of_char_bounded: "\<forall>b \<in> set (map of_char s :: nat list). b < 256"
proof -
  have "(of_char c :: nat) < 256" for c
  proof -
    have "(of_char c :: nat) = of_char c mod 256" by (simp only: of_char_mod_256)
    also have "\<dots> < 256" by simp
    finally show ?thesis .
  qed
  then show ?thesis by auto
qed

lemma last_digit_not_pad: "xs \<noteq> [] \<Longrightarrow> last (map b64_digit xs) \<noteq> CHR ''=''"
  by (simp add: last_map b64_digit_not_pad)

lemma strip0:
  assumes "ds \<noteq> [] \<Longrightarrow> last ds \<noteq> CHR ''=''"
  shows "strip_padding ds = ds"
  using assms unfolding strip_padding_def by (cases "ds = []") simp_all

lemma strip1:
  assumes "length (ds @ [CHR ''='']) mod 4 = 0" and "ds \<noteq> [] \<Longrightarrow> last ds \<noteq> CHR ''=''"
  shows "strip_padding (ds @ [CHR ''='']) = ds"
proof -
  have "butlast (ds @ [CHR ''='']) = ds" "last (ds @ [CHR ''='']) = CHR ''=''" by simp_all
  with assms show ?thesis unfolding strip_padding_def by (cases "ds = []") simp_all
qed

lemma strip2:
  assumes "length (ds @ [CHR ''='', CHR ''='']) mod 4 = 0"
  shows "strip_padding (ds @ [CHR ''='', CHR ''='']) = ds"
proof -
  have "butlast (ds @ [CHR ''='', CHR ''='']) = ds @ [CHR ''='']"
    "last (ds @ [CHR ''='', CHR ''='']) = CHR ''=''"
    by (simp_all add: butlast_append)
  with assms show ?thesis unfolding strip_padding_def by simp
qed

lemma strip_padding_groups: "strip_padding (b64_groups bytes) = map b64_digit (sextets bytes)"
proof -
  let ?d = "map b64_digit (sextets bytes)"
  have last: "?d \<noteq> [] \<Longrightarrow> last ?d \<noteq> CHR ''=''"
    using last_digit_not_pad [of "sextets bytes"] by simp
  have len: "(length ?d + padding bytes) mod 4 = 0" by (simp add: sextets_length)
  consider "padding bytes = 0" | "padding bytes = 1" | "padding bytes = 2"
    using sextets_length(2) [of bytes] by linarith
  then show ?thesis
  proof cases
    case 1
    then have e: "b64_groups bytes = ?d" by (simp add: b64_groups_split)
    show ?thesis unfolding e using last by (rule strip0)
  next
    case 2
    then have e: "b64_groups bytes = ?d @ [CHR ''='']" by (simp add: b64_groups_split)
    have "length (?d @ [CHR ''='']) mod 4 = 0" using len 2 by simp
    with last show ?thesis unfolding e by (rule strip1 [rotated])
  next
    case 3
    then have e: "b64_groups bytes = ?d @ [CHR ''='', CHR ''='']"
      by (simp add: b64_groups_split numeral_2_eq_2)
    have "length (?d @ [CHR ''='', CHR ''='']) mod 4 = 0" using len 3 by simp
    then show ?thesis unfolding e by (rule strip2)
  qed
qed

lemma atob_btoa: "atob (btoa s) = Inr s"
proof -
  let ?bytes = "map of_char s :: nat list"
  let ?digits = "map b64_digit (sextets ?bytes)"
  note bounded = of_char_bounded [of s]
  have ws: "filter (\<lambda>c. \<not> ascii_whitespace c) (btoa s) = btoa s"
    by (simp add: btoa_def b64_groups_split b64_digit_not_space pad_not_space filter_id_conv)
  have strip: "strip_padding (btoa s) = ?digits"
    unfolding btoa_def by (rule strip_padding_groups)
  have len: "length ?digits mod 4 \<noteq> 1" using sextets_length(3) [of ?bytes] by simp
  have valid: "\<not> (\<exists>c \<in> set ?digits. b64_value c = None)"
    using sextets_bounded [OF bounded] by (auto simp: b64_value_digit)
  have vals: "map (\<lambda>c. the (b64_value c)) ?digits = sextets ?bytes"
    using sextets_bounded [OF bounded] by (simp add: b64_value_digit map_idI)
  have chars: "map char_of ?bytes = s" by (induction s) simp_all
  have "atob (btoa s) = Inr (map char_of (b64_bytes (map (\<lambda>c. the (b64_value c)) ?digits)))"
    unfolding atob_def Let_def ws strip using len valid by (simp only: if_False simp_thms)
  also have "\<dots> = Inr s"
    unfolding vals b64_bytes_sextets [OF bounded] chars ..
  finally show ?thesis .
qed

lemma decode_loop_map:
  "i \<le> length s \<Longrightarrow> length bytes = length s \<Longrightarrow>
   decode_loop s i bytes = take i bytes @ map (\<lambda>c. word_of_nat (of_char c)) (drop i s)"
proof (induction s i bytes rule: decode_loop.induct)
  case (1 s i bytes)
  show ?case
  proof (cases "i < length s")
    case True
    have "decode_loop s i bytes = decode_loop s (i + 1) (bytes[i := word_of_nat (of_char (s ! i))])"
      using True by (subst decode_loop.simps) simp
    also have "\<dots> = take (i + 1) (bytes[i := word_of_nat (of_char (s ! i))])
                 @ map (\<lambda>c. word_of_nat (of_char c)) (drop (i + 1) s)"
      using True "1.prems" by (intro "1.IH") auto
    also have "\<dots> = take i bytes @ map (\<lambda>c. word_of_nat (of_char c)) (drop i s)"
      using True "1.prems"
      by (simp add: take_Suc_conv_app_nth Cons_nth_drop_Suc [symmetric])
    finally show ?thesis .
  next
    case False
    with "1.prems" show ?thesis by (subst decode_loop.simps) simp
  qed
qed

lemma word_of_char_of_unat: "word_of_nat (of_char (char_of (unat b))) = (b :: 8 word)"
proof -
  have "word_of_nat (of_char (char_of (unat b))) = (word_of_nat (unat b) :: 8 word)"
    by (simp only: of_char_char_of_unat)
  also have "\<dots> = b" by simp
  finally show ?thesis .
qed

lemma bytes_int16_bytes:
  "int16_pairs host (int16_bytes host w @ rest) = w # int16_pairs host rest"
proof -
  have "push_bit 8 (ucast (ucast (drop_bit 8 w) :: 8 word)) OR ucast (ucast w :: 8 word) = w"
    for w :: "16 word"
    by (rule bit_word_eqI) (auto simp: bit_simps)
  then show ?thesis by (cases host) simp_all
qed

lemma int16_pairs_bytes: "int16_pairs host (concat (map (int16_bytes host) ws)) = ws"
  by (induction ws) (simp_all add: bytes_int16_bytes del: int16_bytes.simps)

lemma length_int16_bytes: "length (concat (map (int16_bytes host) ws)) = 2 * length ws"
  by (induction ws; cases host) simp_all

lemma Int16Array_of_Uint8Array:
  "Int16Array_of_buffer host (Uint8Array_of_buffer host ws) = Inr ws"
  by (simp add: Int16Array_of_buffer_def Uint8Array_of_buffer_def int16_pairs_bytes length_int16_bytes)

lemma decode_encode: "decode (encode bytes) = Inr bytes"
proof -
  let ?s = "map (\<lambda>b. char_of (unat b)) bytes"
  have e: "encode bytes = btoa ?s"
    unfolding encode_def encode_loop_map by (simp only: drop_0 append_Nil)
  have "decode_loop ?s 0 (replicate (length ?s) 0) = map (\<lambda>c. word_of_nat (of_char c)) ?s"
    using decode_loop_map [of 0 ?s "replicate (length ?s) 0"] by simp
  also have "\<dots> = bytes"
    by (induction bytes) (simp_all only: list.map word_of_char_of_unat)
  finally show ?thesis unfolding e decode_def atob_btoa by simp
qed

lemma channel_loop_map:
  "i \<le> frameCount \<Longrightarrow> length samples = frameCount \<Longrightarrow> length dataInt16 = frameCount \<Longrightarrow>
   channel_loop dataInt16 1 0 frameCount i samples
     = take i samples @ map int16_over_32768 (drop i dataInt16)"
proof (induction dataInt16 "1 :: nat" "0 :: nat" frameCount i samples rule: channel_loop.induct)
  case (1 dataInt16 frameCount i samples)
  show ?case
  proof (cases "i < frameCount")
    case True
    have "channel_loop dataInt16 1 0 frameCount i samples
          = channel_loop dataInt16 1 0 frameCount (i + 1)
              (samples[i := int16_over_32768 (dataInt16 ! i)])"
      using True by (subst channel_loop.simps) simp
    also have "\<dots> = take (i + 1) (samples[i := int16_over_32768 (dataInt16 ! i)])
                 @ map int16_over_32768 (drop (i + 1) dataInt16)"
      using True "1.prems" "1.hyps" [of] by auto
    also have "\<dots> = take i samples @ map int16_over_32768 (drop i dataInt16)"
      using True "1.prems"
      by (simp add: take_Suc_conv_app_nth Cons_nth_drop_Suc [symmetric])
    finally show ?thesis .
  next
    case False
    with "1.prems" show ?thesis by (subst channel_loop.simps) simp
  qed
qed

lemma decodeAudioData_mono:
  assumes "ws \<noteq> []" and "rate \<noteq> 0"
  shows "decodeAudioData host (Uint8Array_of_buffer host ws) rate 1
           = Inr \<lparr>numberOfChannels = 1, length_frames = length ws, sampleRate = rate,
                  channelData = [map int16_over_32768 ws]\<rparr>"
proof -
  let ?b = "\<lparr>numberOfChannels = 1, length_frames = length ws, sampleRate = rate,
             channelData = [replicate (length ws) (Finite 0)]\<rparr>"
  let ?b' = "\<lparr>numberOfChannels = 1, length_frames = length ws, sampleRate = rate,
             channelData = [map int16_over_32768 ws]\<rparr>"
  have cb: "createBuffer 1 (length ws) rate = Inr ?b"
    using assms by (simp add: createBuffer_def)
  have ch: "channel_loop ws 1 0 (length ws) 0 (replicate (length ws) (Finite 0))
              = map int16_over_32768 ws"
    using channel_loop_map [of 0 "length ws" "replicate (length ws) (Finite 0)" ws]
    by (simp del: channel_loop.simps)
  have s1: "channels_loop ws 1 (length ws) 0 ?b = channels_loop ws 1 (length ws) (0 + 1) ?b'"
    by (subst channels_loop.simps) (simp add: ch [unfolded One_nat_def] del: channels_loop.simps channel_loop.simps)
  have s2: "channels_loop ws 1 (length ws) (0 + 1) ?b' = ?b'"
    by (subst channels_loop.simps) (simp del: channels_loop.simps channel_loop.simps)
  have cl: "channels_loop ws 1 (length ws) 0 ?b = ?b'" using s1 s2 by (rule trans)
  have "decodeAudioData host (Uint8Array_of_buffer host ws) rate 1
          = (case createBuffer 1 (length ws) rate of
               Inl e \<Rightarrow> Inl e
             | Inr buffer \<Rightarrow> Inr (channels_loop ws 1 (length ws) 0 buffer))"
    unfolding decodeAudioData_def Int16Array_of_Uint8Array by (simp add: Let_def del: channels_loop.simps channel_loop.simps)
  also have "\<dots> = Inr ?b'" unfolding cb by (simp only: sum.case cl)
  finally show ?thesis .
qed

lemma trunc_close: "\<bar>r - of_int (trunc r)\<bar> < 1"
proof (cases "0 \<le> r")
  case True
  have "of_int \<lfloor>r\<rfloor> \<le> r" "r < of_int \<lfloor>r\<rfloor> + 1"
    using floor_correct [of r] by simp_all
  then have "\<bar>r - of_int \<lfloor>r\<rfloor>\<bar> < 1" by linarith
  with True show ?thesis by (simp only: trunc_def if_True)
next
  case False
  have "of_int \<lceil>r\<rceil> - 1 < r" "r \<le> of_int \<lceil>r\<rceil>"
    using ceiling_correct [of r] by simp_all
  then have "\<bar>r - of_int \<lceil>r\<rceil>\<bar> < 1" by linarith
  with False show ?thesis by (simp only: trunc_def if_False)
qed

lemma sint_in_range:
  assumes "- 32768 \<le> n" and "n < 32768"
  shows "sint (word_of_int n :: 16 word) = n"
proof -
  have "sint (word_of_int n :: 16 word) = signed_take_bit 15 n"
    by (simp add: signed_of_int)
  also have "\<dots> = n"
    using assms by (simp add: signed_take_bit_int_eq_self_iff)
  finally show ?thesis .
qed

lemma trunc_range:
  assumes "- 1 \<le> r" and "r < 1"
  shows "- 32768 \<le> trunc (r * 32768)" and "trunc (r * 32768) < 32768"
proof -
  have lo: "of_int (- 32768) \<le> r * 32768" and hi: "r * 32768 < of_int 32768"
    using assms by simp_all
  have f1: "- 32768 \<le> \<lfloor>r * 32768\<rfloor>" using lo by (simp only: le_floor_iff)
  have f2: "\<lfloor>r * 32768\<rfloor> < 32768" using hi by (simp only: floor_less_iff)
  have c1: "- 32768 \<le> \<lceil>r * 32768\<rceil>"
    using f1 floor_le_ceiling [of "r * 32768"] by (rule order_trans)
  have c2: "\<lceil>r * 32768\<rceil> < 32768" if "r * 32768 < 0"
  proof -
    from that have "\<lceil>r * 32768\<rceil> \<le> 0" by (simp add: ceiling_le_iff)
    then show ?thesis by simp
  qed
  show "- 32768 \<le> trunc (r * 32768)"
    using f1 c1 by (cases "0 \<le> r * 32768") (simp_all only: trunc_def if_True if_False)
  show "trunc (r * 32768) < 32768"
  proof (cases "0 \<le> r * 32768")
    case True
    with f2 show ?thesis by (simp only: trunc_def if_True)
  next
    case False
    then have "r * 32768 < 0" by simp
    from c2 [OF this] False show ?thesis by (simp only: trunc_def if_False)
  qed
qed

lemma sample_round_trip:
  assumes "- 1 \<le> r" and "r < 1"
  shows "\<exists>q. int16_over_32768 (ToInt16 (times_32768 (Finite r))) = Finite q
             \<and> \<bar>r - q\<bar> < 1 / 32768"
proof -
  let ?n = "trunc (r * 32768)"
  let ?q = "of_int ?n / 32768 :: rat"
  have s: "sint (word_of_int ?n :: 16 word) = ?n"
    using trunc_range [OF assms] by (rule sint_in_range)
  have c: "\<bar>r * 32768 - of_int ?n\<bar> < 1" by (rule trunc_close)
  have "r - ?q = (r * 32768 - of_int ?n) / 32768" by (simp add: diff_divide_distrib)
  then have "\<bar>r - ?q\<bar> = \<bar>r * 32768 - of_int ?n\<bar> / 32768" by (simp only: abs_divide abs_numeral)
  also have "\<dots> < 1 / 32768" using c by (simp only: divide_strict_right_mono zero_less_numeral)
  finally have b: "\<bar>r - ?q\<bar> < 1 / 32768" .
  have "int16_over_32768 (ToInt16 (times_32768 (Finite r))) = Finite ?q"
    by (simp only: times_32768.simps ToInt16.simps int16_over_32768_def s)
  with b show ?thesis by blast
qed


lemma frame_round_trip:
  assumes "samples \<noteq> []"
  shows "round_trip host samples
           = Inr (map (\<lambda>x. int16_over_32768 (ToInt16 (times_32768 x))) samples)"
proof -
  let ?ws = "map (\<lambda>x. ToInt16 (times_32768 x)) samples"
  have l: "createBlob_loop samples 0 (replicate (length samples) 0) = ?ws"
    using createBlob_loop_map [of 0 samples "replicate (length samples) 0"]
    by (simp del: createBlob_loop.simps)
  have d: "data (createBlob host samples) = encode (Uint8Array_of_buffer host ?ws)"
    unfolding createBlob_def Let_def l by (simp only: Blob.simps)
  have "?ws \<noteq> []" using assms by (simp only: map_is_Nil_conv not_False_eq_True)
  then have a: "decodeAudioData host (Uint8Array_of_buffer host ?ws) 24000 1
           = Inr \<lparr>numberOfChannels = 1, length_frames = length ?ws, sampleRate = 24000,
                  channelData = [map int16_over_32768 ?ws]\<rparr>"
    by (rule decodeAudioData_mono) simp
  have m: "map int16_over_32768 ?ws
             = map (\<lambda>x. int16_over_32768 (ToInt16 (times_32768 x))) samples"
    by (simp only: map_map comp_def)
  show ?thesis
    unfolding round_trip_def d decode_encode
    by (simp only: sum.case a AudioBuffer.simps concat.simps append_Nil2 m)
qed

text \<open>
  Below full scale the round trip keeps every sample within 1/32768: the failure of the
  bound is confined to samples whose product with 32768 leaves the 16-bit range.
\<close>

lemma round_trip_below_full_scale:
  assumes "samples \<noteq> []" and "\<forall>x \<in> set samples. \<exists>r. x = Finite r \<and> - 1 \<le> r \<and> r < 1"
  shows "\<exists>out. round_trip host samples = Inr out \<and> length out = length samples
           \<and> (\<forall>i < length samples. \<exists>r q. samples ! i = Finite r \<and> out ! i = Finite q
                  \<and> \<bar>r - q\<bar> < 1 / 32768)"
proof -
  let ?out = "map (\<lambda>x. int16_over_32768 (ToInt16 (times_32768 x))) samples"
  have "\<exists>r q. samples ! i = Finite r \<and> ?out ! i = Finite q \<and> \<bar>r - q\<bar> < 1 / 32768"
    if "i < length samples" for i
  proof -
    from that assms(2) obtain r where r: "samples ! i = Finite r" "- 1 \<le> r" "r < 1"
      using nth_mem by blast
    from sample_round_trip [OF r(2,3)] obtain q
      where "int16_over_32768 (ToInt16 (times_32768 (Finite r))) = Finite q" "\<bar>r - q\<bar> < 1 / 32768"
      by blast
    with r(1) that show ?thesis by simp
  qed
  with frame_round_trip [OF assms(1), of host] show ?thesis by simp
qed

text \<open>
  Claim C3, at a full-scale sample.  The sample 1.0 times 32768 is 32768, which the
  \<^verbatim>\<open>Int16Array\<close> stores as -32768; sent and played back on either kind of host it comes out
  as -1.0, an error of 2 and not within 1/32768.
\<close>

theorem full_scale_sample_wraps:
  "round_trip LittleEndian [Finite 1] = Inr [Finite (- 1)]
   \<and> round_trip BigEndian [Finite 1] = Inr [Finite (- 1)]
   \<and> \<not> \<bar>1 - (- 1)\<bar> \<le> (1 / 32768 :: rat)"
proof -
  have "round_trip LittleEndian [Finite 1] = Inr [Finite (- 1)]" by code_simp
  moreover have "round_trip BigEndian [Finite 1] = Inr [Finite (- 1)]" by code_simp
  moreover have "\<not> \<bar>1 - (- 1)\<bar> \<le> (1 / 32768 :: rat)" by simp
  ultimately show ?thesis by blast
qed

subsection \<open>The outbound chunk\<close>

text \<open>
  On a little-endian host the data of a chunk is the base64 text of the values the
  \<^verbatim>\<open>Int16Array\<close> holds, each laid out low byte first; the MIME type is the same on every host.
\<close>

lemma int16_little_endian: "map unat (int16_bytes LittleEndian w) = little_endian (sint w)"
proof -
  have "map unat (int16_bytes LittleEndian (word_of_int (sint w)))
          = little_endian (sint w)"
    unfolding little_endian_def by (simp only: int16_bytes.simps list.map low_byte high_byte)
  then show ?thesis by simp
qed

lemma frame_bytes:
  "map unat (Uint8Array_of_buffer LittleEndian ws) = concat (map (\<lambda>w. little_endian (sint w)) ws)"
  unfolding Uint8Array_of_buffer_def
  by (induction ws) (simp_all only: list.map concat.simps map_append int16_little_endian)

lemma b64_digit_alphabet: "n < 64 \<Longrightarrow> b64_digit n = base64_alphabet ! n"
proof -
  have "\<forall>n \<in> set [0..<64]. b64_digit n = base64_alphabet ! n" by code_simp
  then show "n < 64 \<Longrightarrow> b64_digit n = base64_alphabet ! n" by simp
qed

lemma b64_groups_base64:
  assumes "\<forall>b \<in> set bytes. b < 256"
  shows "b64_groups bytes = base64 bytes"
proof -
  have "map b64_digit (sextets bytes) = map (\<lambda>v. base64_alphabet ! v) (sextets bytes)"
    using sextets_bounded [OF assms] by (simp add: b64_digit_alphabet)
  then show ?thesis unfolding base64_def b64_groups_split by (simp only:)
qed

lemma little_endian_bounded: "\<forall>b \<in> set (concat (map little_endian vs)). b < 256"
  by (induction vs) (auto simp: little_endian_def nat_less_iff)

lemma createBlob_data:
  "createBlob LittleEndian samples
     = \<lparr>data = base64_pcm16le (map (\<lambda>x. sint (ToInt16 (times_32768 x))) samples),
        mimeType = ''audio/pcm;rate=16000''\<rparr>"
proof -
  let ?ws = "map (\<lambda>x. ToInt16 (times_32768 x)) samples"
  let ?vs = "map (\<lambda>x. sint (ToInt16 (times_32768 x))) samples"
  have l: "createBlob_loop samples 0 (replicate (length samples) 0) = ?ws"
    using createBlob_loop_map [of 0 samples "replicate (length samples) 0"]
    by (simp del: createBlob_loop.simps)
  have b: "map unat (Uint8Array_of_buffer LittleEndian ?ws) = concat (map little_endian ?vs)"
    unfolding frame_bytes by (simp only: map_map comp_def)
  have "encode (Uint8Array_of_buffer LittleEndian ?ws) = base64_pcm16le ?vs"
    unfolding encode_eq b base64_pcm16le_def
    by (rule b64_groups_base64) (rule little_endian_bounded)
  then show ?thesis unfolding createBlob_def Let_def l by (simp only:)
qed

lemma createBlob_mimeType: "mimeType (createBlob host samples) = ''audio/pcm;rate=16000''"
  unfolding createBlob_def Let_def by (simp only: Blob.simps)

text \<open>
  Below full scale the Int16Array holds a 16-bit PCM value of every sample, so the chunk is
  the base64 text of the frame as 16-bit little-endian signed PCM.
\<close>

lemma sample_pcm16:
  assumes "- 1 \<le> r" and "r < 1"
  shows "pcm16 (Finite r) (sint (ToInt16 (times_32768 (Finite r))))"
proof -
  let ?n = "trunc (r * 32768)"
  have s: "sint (ToInt16 (times_32768 (Finite r))) = ?n"
    using trunc_range [OF assms] by (simp only: times_32768.simps ToInt16.simps sint_in_range)
  have c: "\<bar>r * 32768 - of_int ?n\<bar> < 1" by (rule trunc_close)
  have "r - of_int ?n / 32768 = (r * 32768 - of_int ?n) / 32768" by (simp add: diff_divide_distrib)
  then have "\<bar>r - of_int ?n / 32768\<bar> = \<bar>r * 32768 - of_int ?n\<bar> / 32768"
    by (simp only: abs_divide abs_numeral)
  also have "\<dots> < 1 / 32768" using c by (simp only: divide_strict_right_mono zero_less_numeral)
  finally have "\<bar>r - of_int ?n / 32768\<bar> \<le> 1 / 32768" by (rule less_imp_le)
  with trunc_range [OF assms] show ?thesis unfolding s pcm16_def by simp
qed

lemma createBlob_below_full_scale:
  assumes "\<forall>x \<in> set samples. \<exists>r. x = Finite r \<and> - 1 \<le> r \<and> r < 1"
  shows "\<exists>vs. list_all2 pcm16 samples vs
           \<and> createBlob LittleEndian samples
               = \<lparr>data = base64_pcm16le vs, mimeType = ''audio/pcm;rate=16000''\<rparr>"
proof -
  let ?vs = "map (\<lambda>x. sint (ToInt16 (times_32768 x))) samples"
  have "pcm16 x (sint (ToInt16 (times_32768 x)))" if "x \<in> set samples" for x
  proof -
    from that assms obtain r where "x = Finite r" "- 1 \<le> r" "r < 1" by blast
    with sample_pcm16 [of r] show ?thesis by simp
  qed
  then have "list_all2 pcm16 samples ?vs"
    by (simp add: list_all2_map2 list_all2_same)
  with createBlob_data [of samples] show ?thesis by blast
qed

text \<open>The only 16-bit PCM value of the sample 1.0 is 32767.\<close>

lemma full_scale_pcm16: "{v. pcm16 (Finite 1) v} = {32767}"
proof -
  have "pcm16 (Finite 1) v \<longleftrightarrow> v = 32767" for v
  proof
    assume "pcm16 (Finite 1) v"
    then have "- 32768 \<le> v \<and> v \<le> 32767 \<and> \<bar>1 - of_int v / 32768\<bar> \<le> (1 / 32768 :: rat)"
      unfolding pcm16_def by (simp only: number.case)
    then have u: "v \<le> 32767" and "\<bar>1 - of_int v / 32768\<bar> \<le> (1 / 32768 :: rat)"
      by blast+
    then have "1 - of_int v / 32768 \<le> (1 / 32768 :: rat)" by linarith
    then have "(32767 :: rat) \<le> of_int v" by (simp add: field_simps)
    then have "32767 \<le> v" by linarith
    with u show "v = 32767" by simp
  next
    assume "v = 32767"
    then show "pcm16 (Finite 1) v" by (simp add: pcm16_def)
  qed
  then show ?thesis by auto
qed


text \<open>
  Claim C6, at a full-scale sample.  For the frame of the one sample 1.0 the chunk has the
  MIME type \<^verbatim>\<open>audio/pcm;rate=16000\<close>, but its data is \<^verbatim>\<open>AIA=\<close>, the 16-bit little-endian PCM
  of the sample -1.0: the product 32768 wraps to -32768 in the \<^verbatim>\<open>Int16Array\<close>.  The sample
  1.0 has the one 16-bit PCM value 32767, whose little-endian base64 text is \<^verbatim>\<open>/38=\<close>.  On a
  big-endian host the data is \<^verbatim>\<open>gAA=\<close>, the same value high byte first.
\<close>

theorem full_scale_chunk_is_not_its_pcm:
  "createBlob LittleEndian [Finite 1]
     = \<lparr>data = ''AIA='', mimeType = ''audio/pcm;rate=16000''\<rparr>
   \<and> {v. pcm16 (Finite 1) v} = {32767}
   \<and> base64_pcm16le [32767] = ''/38=''
   \<and> base64_pcm16le [- 32768] = ''AIA=''
   \<and> pcm16 (Finite (- 1)) (- 32768)
   \<and> data (createBlob BigEndian [Finite 1]) = ''gAA=''"
proof -
  have a: "createBlob LittleEndian [Finite 1]
             = \<lparr>data = ''AIA='', mimeType = ''audio/pcm;rate=16000''\<rparr>" by code_simp
  have b: "base64_pcm16le [32767] = ''/38=''" by code_simp
  have c: "base64_pcm16le [- 32768] = ''AIA=''" by code_simp
  have d: "pcm16 (Finite (- 1)) (- 32768)" by (simp add: pcm16_def)
  have e: "data (createBlob BigEndian [Finite 1]) = ''gAA=''" by code_simp
  from a full_scale_pcm16 b c d e show ?thesis by blast
qed

section \<open>Properties of the live conversation\<close>

subsection \<open>The playback clock\<close>

lemma duration_nonneg: "0 \<le> duration b"
  by (simp add: duration_def)

lemma back_to_back_snoc:
  "back_to_back t (chunks @ [(n, w, d)]) \<longleftrightarrow> back_to_back t chunks \<and> end_of t chunks \<le> w \<and> 0 \<le> d"
  by (induction t chunks rule: back_to_back.induct) auto

lemma end_of_snoc: "end_of t (chunks @ [(n, w, d)]) = w + d"
  by (induction t chunks rule: end_of.induct) auto

lemma back_to_back_prior:
  "acc \<le> t \<Longrightarrow> back_to_back t chunks \<Longrightarrow> after_prior_durations acc chunks"
proof (induction t chunks arbitrary: acc rule: back_to_back.induct)
  case (1 t)
  then show ?case by simp
next
  case (2 t n w d chunks)
  from "2.prems" have "acc + d \<le> w + d" by simp
  with "2.prems" "2.IH" [of "acc + d"] show ?case by simp
qed

lemma prelude_clock:
  "nextStartTime (note_input message s) = nextStartTime s"
  "nextStartTime (note_output message s) = nextStartTime s"
  "nextStartTime (finish_turn env s) = nextStartTime s"
  "started (note_input message s) = started s"
  "started (note_output message s) = started s"
  "started (finish_turn env s) = started s"
  "fresh (note_input message s) = fresh s"
  "fresh (note_output message s) = fresh s"
  "fresh (finish_turn env s) = fresh s"
  by (simp_all add: note_input_def note_output_def finish_turn_def Let_def split: option.splits)

text \<open>What one message does to the clock and to the list of started chunks.\<close>

lemma onmessage_clock:
  "(started (snd (onmessage host env message s)) = started s
     \<and> (nextStartTime (snd (onmessage host env message s)) = nextStartTime s
        \<or> nextStartTime (snd (onmessage host env message s)) = max (nextStartTime s) (currentTime env)))
   \<or> (\<exists>audioData bytes audioBuffer.
         message_audio message = Inr (Some audioData)
         \<and> decode audioData = Inr bytes
         \<and> decodeAudioData host bytes 24000 1 = Inr audioBuffer
         \<and> started (snd (onmessage host env message s))
             = started s @ [(fresh s, max (nextStartTime s) (currentTime env), duration audioBuffer)]
         \<and> nextStartTime (snd (onmessage host env message s))
             = max (nextStartTime s) (currentTime env) + duration audioBuffer)"
  by (auto simp: onmessage_def schedule_audio_def raise_clock_def start_chunk_def Let_def prelude_clock split: sum.splits option.splits)

lemma onmessage_monotone: "nextStartTime s \<le> nextStartTime (snd (onmessage host env message s))"
  using onmessage_clock [of host env message s] duration_nonneg
  by (auto simp: max_def add_increasing2)

lemma onmessage_orderly:
  assumes "back_to_back t (started s)" and "end_of t (started s) \<le> nextStartTime s"
  shows "back_to_back t (started (snd (onmessage host env message s)))
         \<and> end_of t (started (snd (onmessage host env message s)))
             \<le> nextStartTime (snd (onmessage host env message s))"
  using onmessage_clock [of host env message s] assms duration_nonneg
  by (auto simp: back_to_back_snoc end_of_snoc)

lemma deliver_monotone: "nextStartTime s \<le> nextStartTime (deliver host messages s)"
proof (induction host messages s rule: deliver.induct)
  case (1 host s)
  then show ?case by simp
next
  case (2 host env message rest s)
  have "nextStartTime s \<le> nextStartTime (snd (onmessage host env message s))"
    by (rule onmessage_monotone)
  also note "2.IH"
  finally show ?case by simp
qed

lemma deliver_orderly:
  "back_to_back t (started s) \<Longrightarrow> end_of t (started s) \<le> nextStartTime s \<Longrightarrow>
   back_to_back t (started (deliver host messages s))
   \<and> end_of t (started (deliver host messages s)) \<le> nextStartTime (deliver host messages s)"
proof (induction host messages s rule: deliver.induct)
  case (1 host s)
  then show ?case by simp
next
  case (2 host env message rest s)
  from onmessage_orderly [OF "2.prems", of host env message] "2.IH" show ?case by simp
qed

text \<open>Each half on its own keeps the clock from falling and the chunks back to back.\<close>

lemma clock_step_orderly:
  "nextStartTime s \<le> nextStartTime (run_step c s)"
  "back_to_back t (started s) \<Longrightarrow> end_of t (started s) \<le> nextStartTime s \<Longrightarrow>
   back_to_back t (started (run_step c s))
   \<and> end_of t (started (run_step c s)) \<le> nextStartTime (run_step c s)"
  using duration_nonneg
  by (cases c; simp add: raise_clock_def start_chunk_def Let_def back_to_back_snoc end_of_snoc)+

lemma interleaved_steps_orderly:
  "nextStartTime s \<le> nextStartTime (fold run_step steps s)"
  "back_to_back t (started s) \<Longrightarrow> end_of t (started s) \<le> nextStartTime s \<Longrightarrow>
   back_to_back t (started (fold run_step steps s))
   \<and> end_of t (started (fold run_step steps s)) \<le> nextStartTime (fold run_step steps s)"
proof (induction steps arbitrary: s)
  case Nil
  {
    case 1
    show ?case by simp
  next
    case 2
    then show ?case by simp
  }
next
  case (Cons c steps)
  {
    case 1
    have "nextStartTime s \<le> nextStartTime (run_step c s)" by (rule clock_step_orderly)
    also have "\<dots> \<le> nextStartTime (fold run_step steps (run_step c s))" by (rule Cons.IH)
    finally show ?case by simp
  next
    case 2
    from clock_step_orderly(2) [OF 2, of c] Cons.IH(2) [of "run_step c s"]
    show ?case by simp
  }
qed

lemma onmessage_schedules:
  assumes "message_audio message = Inr (Some audioData)" and "audioData \<noteq> []"
    and "decode audioData = Inr bytes" and "decodeAudioData host bytes 24000 1 = Inr audioBuffer"
  shows "started (snd (onmessage host env message s))
           = started s @ [(fresh s, max (nextStartTime s) (currentTime env), duration audioBuffer)]"
    and "nextStartTime (snd (onmessage host env message s))
           = max (nextStartTime s) (currentTime env) + duration audioBuffer"
    and "fresh (snd (onmessage host env message s)) = fresh s + 1"
  using assms
  by (simp_all add: onmessage_def schedule_audio_def raise_clock_def start_chunk_def Let_def prelude_clock)

lemma two_sample_chunk:
  "decode ''AIAAgA=='' = Inr [0, 128, 0, 128]"
  "decodeAudioData LittleEndian [0, 128, 0, 128] 24000 1
     = Inr \<lparr>numberOfChannels = 1, length_frames = 2, sampleRate = 24000,
            channelData = [[Finite (- 1), Finite (- 1)]]\<rparr>"
  by code_simp+

text \<open>
  Claim C1.  Over every sequence of inbound messages the playback clock \<^verbatim>\<open>nextStartTime\<close>
  never decreases.  A message either starts no chunk, and then leaves the clock as it was
  or raised to the context's current time, or it starts the decoded chunk at the larger of
  the context's current time and the clock's previous value and sets the clock to that
  start plus the duration of the chunk's buffer.  So chunks that were back to back, with the
  clock no earlier than the end of the last, stay so: none starts before the one before it
  has ended, nor before the sum of the durations before it.
\<close>

theorem playback_clock_schedule:
  "nextStartTime s \<le> nextStartTime (deliver host messages s)
   \<and> (back_to_back t (started s) \<and> end_of t (started s) \<le> nextStartTime s \<longrightarrow>
        back_to_back t (started (deliver host messages s))
        \<and> end_of t (started (deliver host messages s)) \<le> nextStartTime (deliver host messages s)
        \<and> after_prior_durations t (started (deliver host messages s)))
   \<and> ((started (snd (onmessage host env message s)) = started s
         \<and> (nextStartTime (snd (onmessage host env message s)) = nextStartTime s
            \<or> nextStartTime (snd (onmessage host env message s)) = max (nextStartTime s) (currentTime env)))
       \<or> (\<exists>audioData bytes audioBuffer.
             message_audio message = Inr (Some audioData)
             \<and> decode audioData = Inr bytes
             \<and> decodeAudioData host bytes 24000 1 = Inr audioBuffer
             \<and> started (snd (onmessage host env message s))
                 = started s @ [(fresh s, max (nextStartTime s) (currentTime env), duration audioBuffer)]
             \<and> nextStartTime (snd (onmessage host env message s))
                 = max (nextStartTime s) (currentTime env) + duration audioBuffer))"
proof -
  have "back_to_back t (started s) \<and> end_of t (started s) \<le> nextStartTime s \<longrightarrow>
        back_to_back t (started (deliver host messages s))
        \<and> end_of t (started (deliver host messages s)) \<le> nextStartTime (deliver host messages s)
        \<and> after_prior_durations t (started (deliver host messages s))"
    using deliver_orderly [of t s host messages] back_to_back_prior [of t t]
    by blast
  with deliver_monotone [of s host messages] onmessage_clock [of host env message s]
  show ?thesis by blast
qed

theorem playback_clock_schedule_witness:
  "back_to_back 0 (started open_session)
   \<and> end_of 0 (started open_session) \<le> nextStartTime open_session
   \<and> started (deliver LittleEndian
        [(\<lparr>currentTime = 1 / 2, dateNow = (\<lambda>k. 0)\<rparr>,
          LiveServerMessage (Some \<lparr>outputTranscription = None, inputTranscription = None,
            turnComplete = False,
            modelTurn = Some (Content (Some [Part (Some (Some ''AIAAgA==''))]))\<rparr>)),
         (\<lparr>currentTime = 1 / 2, dateNow = (\<lambda>k. 0)\<rparr>,
          LiveServerMessage (Some \<lparr>outputTranscription = None, inputTranscription = None,
            turnComplete = False,
            modelTurn = Some (Content (Some [Part (Some (Some ''AIAAgA==''))]))\<rparr>)),
         (\<lparr>currentTime = 2, dateNow = (\<lambda>k. 0)\<rparr>,
          LiveServerMessage (Some \<lparr>outputTranscription = None, inputTranscription = None,
            turnComplete = False,
            modelTurn = Some (Content (Some [Part (Some (Some ''AIAAgA==''))]))\<rparr>))]
        open_session)
       = [(6, 1 / 2, 1 / 12000), (7, 6001 / 12000, 1 / 12000), (8, 2, 1 / 12000)]
   \<and> back_to_back 0 [(6, 1 / 2, 1 / 12000), (7, 6001 / 12000, 1 / 12000), (8, 2, 1 / 12000)]
   \<and> after_prior_durations 0 [(6, 1 / 2, 1 / 12000), (7, 6001 / 12000, 1 / 12000), (8, 2, 1 / 12000)]"
proof -
  let ?m = "LiveServerMessage (Some \<lparr>outputTranscription = None, inputTranscription = None,
            turnComplete = False,
            modelTurn = Some (Content (Some [Part (Some (Some ''AIAAgA==''))]))\<rparr>)"
  let ?e1 = "\<lparr>currentTime = 1 / 2, dateNow = (\<lambda>k. 0)\<rparr>"
  let ?e3 = "\<lparr>currentTime = 2, dateNow = (\<lambda>k. 0)\<rparr>"
  let ?s1 = "snd (onmessage LittleEndian ?e1 ?m open_session)"
  let ?s2 = "snd (onmessage LittleEndian ?e1 ?m ?s1)"
  let ?s3 = "snd (onmessage LittleEndian ?e3 ?m ?s2)"
  have s0: "started open_session = []" "nextStartTime open_session = 0" "fresh open_session = 6"
    by code_simp+
  have a: "message_audio ?m = Inr (Some ''AIAAgA=='')" by code_simp
  have d: "duration \<lparr>numberOfChannels = 1, length_frames = 2, sampleRate = 24000,
            channelData = [[Finite (- 1), Finite (- 1)]]\<rparr> = 1 / 12000"
    by (simp add: duration_def)
  have n: "''AIAAgA=='' \<noteq> []" by simp
  note step = onmessage_schedules [OF a n two_sample_chunk, unfolded d]
  have s1: "started ?s1 = [(6, 1 / 2, 1 / 12000)]" "nextStartTime ?s1 = 6001 / 12000" "fresh ?s1 = 7"
    by (simp_all add: step s0)
  have s2: "started ?s2 = [(6, 1 / 2, 1 / 12000), (7, 6001 / 12000, 1 / 12000)]"
    "nextStartTime ?s2 = 6002 / 12000" "fresh ?s2 = 8"
    by (simp_all add: step s0)
  have s3: "started ?s3 = [(6, 1 / 2, 1 / 12000), (7, 6001 / 12000, 1 / 12000), (8, 2, 1 / 12000)]"
    by (simp add: step s0)
  have v: "started (deliver LittleEndian [(?e1, ?m), (?e1, ?m), (?e3, ?m)] open_session)
            = [(6, 1 / 2, 1 / 12000), (7, 6001 / 12000, 1 / 12000), (8, 2, 1 / 12000)]"
    using s3 by simp
  have h1: "back_to_back 0 (started open_session)" by (simp add: s0)
  have h2: "end_of 0 (started open_session) \<le> nextStartTime open_session" by (simp add: s0)
  from playback_clock_schedule [of open_session LittleEndian "[(?e1, ?m), (?e1, ?m), (?e3, ?m)]" 0 ?e1 ?m]
    h1 h2
  have "back_to_back 0 (started (deliver LittleEndian [(?e1, ?m), (?e1, ?m), (?e3, ?m)] open_session))
        \<and> after_prior_durations 0 (started (deliver LittleEndian [(?e1, ?m), (?e1, ?m), (?e3, ?m)] open_session))"
    by blast
  then have "back_to_back 0 [(6, 1 / 2, 1 / 12000), (7, 6001 / 12000, 1 / 12000), (8, 2, 1 / 12000)]
     \<and> after_prior_durations 0 [(6, 1 / 2, 1 / 12000), (7, 6001 / 12000, 1 / 12000), (8, 2, 1 / 12000)]"
    unfolding v .
  with h1 h2 v show ?thesis by blast
qed

subsection \<open>Turn completion\<close>

lemma schedule_audio_transcripts:
  "transcripts (snd (schedule_audio host env audioData s)) = transcripts s"
  "transcriptRefs (snd (schedule_audio host env audioData s)) = transcriptRefs s"
  by (simp_all add: schedule_audio_def raise_clock_def start_chunk_def Let_def split: sum.splits)

lemma onmessage_transcripts:
  "transcripts (snd (onmessage host env message s)) =
     transcripts (if signals_turn_complete message
                  then finish_turn env (note_input message (note_output message s))
                  else note_input message (note_output message s))"
  "transcriptRefs (snd (onmessage host env message s)) =
     transcriptRefs (if signals_turn_complete message
                  then finish_turn env (note_input message (note_output message s))
                  else note_input message (note_output message s))"
  by (simp_all add: onmessage_def Let_def schedule_audio_transcripts split: sum.splits option.splits)

lemma note_transcripts:
  "transcripts (note_input message s) = transcripts s"
  "transcripts (note_output message s) = transcripts s"
  by (simp_all add: note_input_def note_output_def split: option.splits)

text \<open>
  Claim C2.  A message that signals turn completion appends to the transcripts one entry
  with speaker user for a non-empty input buffer, then one entry with speaker tutor for a
  non-empty output buffer, and nothing for an empty buffer; when the handler is done both
  buffers are empty.  The buffers are those that hold the fragments of this message too.
\<close>

theorem turn_complete_emits_entries:
  "signals_turn_complete message \<longrightarrow>
     (\<exists>appended.
        transcripts (snd (onmessage host env message s)) = transcripts s @ appended
        \<and> map (\<lambda>t. (speaker t, text_t t)) appended =
            (if currentInput (transcriptRefs (note_input message (note_output message s))) \<noteq> []
             then [(user, currentInput (transcriptRefs (note_input message (note_output message s))))]
             else [])
            @ (if currentOutput (transcriptRefs (note_input message (note_output message s))) \<noteq> []
               then [(tutor, currentOutput (transcriptRefs (note_input message (note_output message s))))]
               else []))
     \<and> transcriptRefs (snd (onmessage host env message s)) = no_fragments"
  by (simp add: onmessage_transcripts finish_turn_def Let_def note_transcripts)

theorem turn_complete_emits_entries_witness:
  "signals_turn_complete
     (LiveServerMessage (Some \<lparr>outputTranscription = Some (Some ''Hi''), inputTranscription = None,
                               turnComplete = True, modelTurn = None\<rparr>))
   \<and> map (\<lambda>t. (speaker t, text_t t))
        (transcripts (snd (onmessage LittleEndian \<lparr>currentTime = 0, dateNow = (\<lambda>k. 1000)\<rparr>
           (LiveServerMessage (Some \<lparr>outputTranscription = Some (Some ''Hi''), inputTranscription = None,
                                     turnComplete = True, modelTurn = None\<rparr>))
           (onaudioprocess LittleEndian [Finite 0] (onaudioprocess LittleEndian [Finite 0]
              (onaudioprocess LittleEndian [Finite 0] open_session))))))
       = [(tutor, ''Hi'')]
   \<and> transcriptRefs (snd (onmessage LittleEndian \<lparr>currentTime = 0, dateNow = (\<lambda>k. 1000)\<rparr>
           (LiveServerMessage (Some \<lparr>outputTranscription = Some (Some ''Hi''), inputTranscription = None,
                                     turnComplete = True, modelTurn = None\<rparr>))
           (onaudioprocess LittleEndian [Finite 0] (onaudioprocess LittleEndian [Finite 0]
              (onaudioprocess LittleEndian [Finite 0] open_session)))))
       = \<lparr>currentInput = [], currentOutput = []\<rparr>"
proof -
  let ?m = "LiveServerMessage (Some \<lparr>outputTranscription = Some (Some ''Hi''), inputTranscription = None,
                               turnComplete = True, modelTurn = None\<rparr>)"
  let ?env = "\<lparr>currentTime = 0, dateNow = (\<lambda>k. 1000)\<rparr>"
  let ?s = "onaudioprocess LittleEndian [Finite 0] (onaudioprocess LittleEndian [Finite 0]
              (onaudioprocess LittleEndian [Finite 0] open_session))"
  have h: "signals_turn_complete ?m" by code_simp
  have s0: "transcripts ?s = []" by code_simp
  have bi: "currentInput (transcriptRefs (note_input ?m (note_output ?m ?s))) = []" by code_simp
  have bo: "currentOutput (transcriptRefs (note_input ?m (note_output ?m ?s))) = ''Hi''" by code_simp
  from turn_complete_emits_entries [of ?m LittleEndian ?env ?s] h
  have "(\<exists>appended.
        transcripts (snd (onmessage LittleEndian ?env ?m ?s)) = transcripts ?s @ appended
        \<and> map (\<lambda>t. (speaker t, text_t t)) appended =
            (if currentInput (transcriptRefs (note_input ?m (note_output ?m ?s))) \<noteq> []
             then [(user, currentInput (transcriptRefs (note_input ?m (note_output ?m ?s))))]
             else [])
            @ (if currentOutput (transcriptRefs (note_input ?m (note_output ?m ?s))) \<noteq> []
               then [(tutor, currentOutput (transcriptRefs (note_input ?m (note_output ?m ?s))))]
               else []))
     \<and> transcriptRefs (snd (onmessage LittleEndian ?env ?m ?s)) = no_fragments"
    by blast
  then have "map (\<lambda>t. (speaker t, text_t t)) (transcripts (snd (onmessage LittleEndian ?env ?m ?s)))
              = [(tutor, ''Hi'')]
     \<and> transcriptRefs (snd (onmessage LittleEndian ?env ?m ?s)) = \<lparr>currentInput = [], currentOutput = []\<rparr>"
    unfolding s0 bi bo by (auto simp: no_fragments_def)
  with h show ?thesis by blast
qed

subsection \<open>Teardown\<close>

lemma fold_stop_track:
  "fold stop_track tracks s = s\<lparr>live_tracks := live_tracks s - set tracks\<rparr>"
proof (induction tracks arbitrary: s)
  case Nil
  then show ?case by simp
next
  case (Cons t tracks)
  have h: "live_tracks s - {t} - set tracks = live_tracks s - insert t (set tracks)" by blast
  have "fold stop_track (t # tracks) s = fold stop_track tracks (stop_track t s)" by simp
  also have "\<dots> = (stop_track t s)\<lparr>live_tracks := live_tracks (stop_track t s) - set tracks\<rparr>"
    by (rule Cons.IH)
  also have "\<dots> = s\<lparr>live_tracks := live_tracks s - set (t # tracks)\<rparr>"
    by (simp add: stop_track_def h)
  finally show ?case .
qed

text \<open>The tracks of a stream ref, the object of an optional ref.\<close>

lemma release_media_eq:
  "release_media s =
     s\<lparr>live_tracks := live_tracks s - (case mediaStreamRef s of None \<Rightarrow> {} | Some tracks \<Rightarrow> set tracks),
       mediaStreamRef := None\<rparr>"
  by (cases "mediaStreamRef s") (simp_all add: release_media_def fold_stop_track)

lemma release_audio_eq:
  "release_audio s =
     s\<lparr>connected := connected s - set_option (scriptProcessor (audioContextRefs s))
                                  - set_option (source (audioContextRefs s)),
       processing := processing s - set_option (scriptProcessor (audioContextRefs s)),
       open_contexts := open_contexts s - set_option (input_ctx (audioContextRefs s))
                                        - set_option (output_ctx (audioContextRefs s)),
       audioContextRefs := no_refs\<rparr>"
  by (cases "scriptProcessor (audioContextRefs s)"; cases "source (audioContextRefs s)";
      cases "input_ctx (audioContextRefs s)"; cases "output_ctx (audioContextRefs s)")
     (auto simp: release_audio_def Let_def disconnect_def close_context_def insert_absorb
           intro!: tutor_state.equality)





lemma stopConversation_done:
  assumes "fst (stopConversation s) = Done"
  shows "holds_nothing (snd (stopConversation s))"
    and "\<not> isRecording (snd (stopConversation s))"
    and "live_tracks (snd (stopConversation s))
          = live_tracks s - (case mediaStreamRef s of None \<Rightarrow> {} | Some tracks \<Rightarrow> set tracks)"
    and "open_contexts (snd (stopConversation s))
          = open_contexts s - set_option (input_ctx (audioContextRefs s))
                            - set_option (output_ctx (audioContextRefs s))"
    and "connected (snd (stopConversation s))
          = connected s - set_option (scriptProcessor (audioContextRefs s))
                        - set_option (source (audioContextRefs s))"
    and "processing (snd (stopConversation s))
          = processing s - set_option (scriptProcessor (audioContextRefs s))"
    and "open_sessions (snd (stopConversation s))
          = open_sessions s - (case sessionPromiseRef s of Some (Fulfils session) \<Rightarrow> {session} | _ \<Rightarrow> {})"
  using assms
  by (auto simp: holds_nothing_def stopConversation_def stop_resume_def Let_def
        release_media_eq release_audio_eq split: option.splits fate.splits)






lemma stopConversation_error: "error (snd (stopConversation s)) = error s"
  by (simp add: stopConversation_def stop_resume_def Let_def release_media_eq release_audio_eq
      split: option.splits fate.splits)

lemma onerror_teardown:
  "error (snd (onerror s)) = Some ''An error occurred during the session.''"
  "fst (onerror s) = Done \<Longrightarrow> holds_nothing (snd (onerror s))"
  "fst (onerror s) = Done \<Longrightarrow>
     open_contexts (snd (onerror s))
       = open_contexts s - set_option (input_ctx (audioContextRefs s))
                         - set_option (output_ctx (audioContextRefs s))"
  "fst (onerror s) = Done \<Longrightarrow>
     live_tracks (snd (onerror s))
       = live_tracks s - (case mediaStreamRef s of None \<Rightarrow> {} | Some tracks \<Rightarrow> set tracks)"
  unfolding onerror_def
  using stopConversation_done [of "s\<lparr>error := Some ''An error occurred during the session.''\<rparr>"]
  by (simp_all add: stopConversation_error)

lemma start_catch_teardown:
  "error (snd (start_catch env err s)) = Some (caught_message (message_of env) err)"
  "fst (start_catch env err s) = Done \<Longrightarrow> holds_nothing (snd (start_catch env err s))"
  "fst (start_catch env err s) = Done \<Longrightarrow>
     open_contexts (snd (start_catch env err s))
       = open_contexts s - set_option (input_ctx (audioContextRefs s))
                         - set_option (output_ctx (audioContextRefs s))"
  unfolding start_catch_def
  using stopConversation_done [of "s\<lparr>error := Some (caught_message (message_of env) err)\<rparr>"]
  by (simp_all add: stopConversation_error)

text \<open>
  Claim C4, when the second \<^verbatim>\<open>AudioContext\<close> constructor throws.  The \<^verbatim>\<open>catch\<close> block sets
  the error message and runs the teardown: the track is stopped and every reference is
  null.  The input context, made but not yet stored in \<^verbatim>\<open>audioContextRefs\<close>, stays open.
\<close>

theorem failed_start_leaves_context_open:
  "fst (startConversation (working_browser\<lparr>output_ctx_throws := Some NotSupportedError\<rparr>) initial_tutor) = Done
   \<and> error (snd (startConversation (working_browser\<lparr>output_ctx_throws := Some NotSupportedError\<rparr>) initial_tutor))
       = Some ''failed''
   \<and> holds_nothing (snd (startConversation (working_browser\<lparr>output_ctx_throws := Some NotSupportedError\<rparr>)
                            initial_tutor))
   \<and> live_tracks (snd (startConversation (working_browser\<lparr>output_ctx_throws := Some NotSupportedError\<rparr>)
                            initial_tutor)) = {}
   \<and> open_contexts (snd (startConversation (working_browser\<lparr>output_ctx_throws := Some NotSupportedError\<rparr>)
                            initial_tutor)) = {1}"
  by code_simp

section \<open>Properties of explanation playback\<close>



lemma stopCurrentAudio_fields:
  "audioPlaying (stopCurrentAudio s) = None"
  "audioSourceRef (stopCurrentAudio s) = None"
  "audioLoading (stopCurrentAudio s) = audioLoading s"
  "audioContextRef (stopCurrentAudio s) = audioContextRef s"
  "e_fresh (stopCurrentAudio s) = e_fresh s"
  "e_open_contexts (stopCurrentAudio s) = e_open_contexts s"
  "e_console (stopCurrentAudio s) = e_console s"
  "e_playing (stopCurrentAudio s) = e_playing s - set_option (audioSourceRef s)"
  "e_connected (stopCurrentAudio s) = e_connected s - set_option (audioSourceRef s)"
  by (simp_all add: stopCurrentAudio_def Let_def split: option.splits)




lemma play_begin_stops:
  "audioSourceRef (snd (play_begin qid s)) = None"
  "audioPlaying (snd (play_begin qid s)) = None"
  "e_playing (snd (play_begin qid s)) = e_playing s - set_option (audioSourceRef s)"
  "e_connected (snd (play_begin qid s)) = e_connected s - set_option (audioSourceRef s)"
  by (simp_all add: play_begin_def stopCurrentAudio_fields)

lemma ensure_context_fields:
  "audioSourceRef (ensure_context s) = audioSourceRef s"
  "audioPlaying (ensure_context s) = audioPlaying s"
  "e_playing (ensure_context s) = e_playing s"
  "e_console (ensure_context s) = e_console s"
  by (simp_all add: ensure_context_def split: option.splits)

lemma play_resume_playing:
  "e_playing (play_resume host qid audioData s) = e_playing s
     \<and> audioSourceRef (play_resume host qid audioData s) = audioSourceRef s
   \<or> (\<exists>n. e_playing (play_resume host qid audioData s) = insert n (e_playing s)
          \<and> audioSourceRef (play_resume host qid audioData s) = Some n)"
  by (auto simp: play_resume_def play_try_def Let_def ensure_context_fields
      split: option.splits sum.splits)

text \<open>
  Calls that do not overlap keep every playing node in \<^verbatim>\<open>audioSourceRef\<close>, so at most one
  node plays.
\<close>

lemma one_playback_without_overlap:
  assumes "e_playing s \<subseteq> set_option (audioSourceRef s)"
  shows "e_playing (handlePlayExplanation host r qid s)
           \<subseteq> set_option (audioSourceRef (handlePlayExplanation host r qid s))"
    and "e_playing (stopCurrentAudio s) \<subseteq> set_option (audioSourceRef (stopCurrentAudio s))"
    and "e_playing (onended n s) \<subseteq> set_option (audioSourceRef (onended n s))"
proof -
  have b: "e_playing (snd (play_begin qid s)) = {}"
    using assms by (auto simp: play_begin_stops)
  show "e_playing (handlePlayExplanation host r qid s)
           \<subseteq> set_option (audioSourceRef (handlePlayExplanation host r qid s))"
  proof -
    obtain goes_on s1 where pb: "play_begin qid s = (goes_on, s1)"
      by (cases "play_begin qid s")
    with b have e1: "e_playing s1 = {}" by simp
    obtain a s2 where sr: "speech_returned (generateSpeech r) s1 = (a, s2)"
      by (cases "speech_returned (generateSpeech r) s1")
    then have "e_playing s2 = {}"
      using e1 by (auto simp: speech_returned_def split: settled.splits)
    with play_resume_playing [of host qid a s2]
    have "e_playing (play_resume host qid a s2) \<subseteq> set_option (audioSourceRef (play_resume host qid a s2))"
      by auto
    with pb sr e1 show ?thesis
      by (cases goes_on) (simp_all add: handlePlayExplanation_def)
  qed
  show "e_playing (stopCurrentAudio s) \<subseteq> set_option (audioSourceRef (stopCurrentAudio s))"
    using assms by (auto simp: stopCurrentAudio_fields)
  show "e_playing (onended n s) \<subseteq> set_option (audioSourceRef (onended n s))"
    using assms by (auto simp: onended_def Let_def)
qed

lemma play_resume_plays:
  assumes "audioData \<noteq> []" and "decode audioData = Inr bytes"
    and "decodeAudioData host bytes 24000 1 = Inr audioBuffer"
  shows "play_resume host qid (Some audioData) s =
           (ensure_context s)
             \<lparr>e_fresh := e_fresh (ensure_context s) + 1,
              e_connected := insert (e_fresh (ensure_context s)) (e_connected (ensure_context s)),
              e_playing := insert (e_fresh (ensure_context s)) (e_playing (ensure_context s)),
              audioSourceRef := Some (e_fresh (ensure_context s)),
              audioPlaying := Some qid, audioLoading := None\<rparr>"
  using assms by (simp add: play_resume_def play_try_def Let_def)

text \<open>
  Claim C8, for two calls that overlap.  A second call for the same question, made while
  the first awaits its speech, finds nothing playing and nothing to stop.  When both
  requests have returned, two source nodes play at once; \<^verbatim>\<open>audioSourceRef\<close> holds the second,
  and \<^verbatim>\<open>stopCurrentAudio\<close> leaves the first playing.
\<close>

theorem overlapping_requests_play_together:
  "fst (play_begin 1 initial_exam)
   \<and> fst (play_begin 1 (snd (play_begin 1 initial_exam)))
   \<and> e_playing (play_resume LittleEndian 1 (Some ''AIAAgA=='')
        (play_resume LittleEndian 1 (Some ''AIAAgA=='')
           (snd (play_begin 1 (snd (play_begin 1 initial_exam)))))) = {1, 2}
   \<and> e_playing (stopCurrentAudio (play_resume LittleEndian 1 (Some ''AIAAgA=='')
        (play_resume LittleEndian 1 (Some ''AIAAgA=='')
           (snd (play_begin 1 (snd (play_begin 1 initial_exam))))))) = {1}"
proof -
  let ?s2 = "snd (play_begin 1 (snd (play_begin 1 initial_exam)))"
  have b1: "fst (play_begin 1 initial_exam)" by code_simp
  have b2: "fst (play_begin 1 (snd (play_begin 1 initial_exam)))" by code_simp
  have s2: "?s2 = \<lparr>audioLoading = Some 1, audioPlaying = None, audioContextRef = None,
         audioSourceRef = None, e_fresh = 0, e_open_contexts = {}, e_connected = {}, e_playing = {},
         e_console = []\<rparr>"
    by code_simp
  have n: "''AIAAgA=='' \<noteq> []" by simp
  have d: "decode ''AIAAgA=='' = Inr [0, 128, 0, 128]"
    "decodeAudioData LittleEndian [0, 128, 0, 128] 24000 1
       = Inr \<lparr>numberOfChannels = 1, length_frames = 2, sampleRate = 24000,
              channelData = [[Finite (- 1), Finite (- 1)]]\<rparr>"
    by (rule two_sample_chunk)+
  note step = play_resume_plays [OF n d]
  have s3: "play_resume LittleEndian 1 (Some ''AIAAgA=='') ?s2
      = \<lparr>audioLoading = None, audioPlaying = Some 1, audioContextRef = Some 0, audioSourceRef = Some 1,
         e_fresh = 2, e_open_contexts = {0}, e_connected = {1}, e_playing = {1}, e_console = []\<rparr>"
    by (simp add: s2 step ensure_context_def)
  have s4: "play_resume LittleEndian 1 (Some ''AIAAgA=='') (play_resume LittleEndian 1 (Some ''AIAAgA=='') ?s2)
      = \<lparr>audioLoading = None, audioPlaying = Some 1, audioContextRef = Some 0, audioSourceRef = Some 2,
         e_fresh = 3, e_open_contexts = {0}, e_connected = {2, 1}, e_playing = {2, 1}, e_console = []\<rparr>"
    by (simp add: s2 step ensure_context_def numeral_2_eq_2)
  have p: "e_playing (play_resume LittleEndian 1 (Some ''AIAAgA=='')
        (play_resume LittleEndian 1 (Some ''AIAAgA=='') ?s2)) = {1, 2}"
    unfolding s4 by auto
  have q: "e_playing (stopCurrentAudio (play_resume LittleEndian 1 (Some ''AIAAgA=='')
        (play_resume LittleEndian 1 (Some ''AIAAgA=='') ?s2))) = {1}"
    unfolding s4 by (auto simp: stopCurrentAudio_def)
  from b1 b2 p q show ?thesis by blast
qed

section \<open>Properties of the application and the content service\<close>

lemma handleExamComplete_level:
  "difficultyLevel (handleExamComplete result exam s) =
     (if 70 < score result then min (difficultyLevel s + 1) 10 else difficultyLevel s)"
  by (simp add: handleExamComplete_def Let_def)

lemma app_step_range:
  "1 \<le> difficultyLevel s \<and> difficultyLevel s \<le> 10 \<Longrightarrow>
   1 \<le> difficultyLevel (app_step ev s) \<and> difficultyLevel (app_step ev s) \<le> 10"
  by (cases ev) (auto simp: handleExamComplete_level handleNewExam_def)

lemma app_run_range:
  "1 \<le> difficultyLevel s \<and> difficultyLevel s \<le> 10 \<Longrightarrow>
   1 \<le> difficultyLevel (app_run events s) \<and> difficultyLevel (app_run events s) \<le> 10"
  unfolding app_run_def
proof (induction events arbitrary: s)
  case Nil
  then show ?case by simp
next
  case (Cons ev events)
  from Cons.prems have "1 \<le> difficultyLevel (app_step ev s) \<and> difficultyLevel (app_step ev s) \<le> 10"
    by (rule app_step_range)
  then show ?case using Cons.IH by simp
qed

text \<open>
  Claim C9.  The difficulty level starts at 1 and stays between 1 and 10 through every run of
  the application's handlers.  \<^verbatim>\<open>handleExamComplete\<close> sets it to the smaller of the level
  plus one and 10 when the score is strictly above 70, and leaves it as it is for a score of
  70 or less.
\<close>

theorem difficulty_level_in_range:
  "difficultyLevel initial_app = 1
   \<and> 1 \<le> difficultyLevel (app_run events initial_app)
   \<and> difficultyLevel (app_run events initial_app) \<le> 10
   \<and> (1 \<le> difficultyLevel s \<and> difficultyLevel s \<le> 10 \<longrightarrow>
        1 \<le> difficultyLevel (handleExamComplete result exam s)
        \<and> difficultyLevel (handleExamComplete result exam s) \<le> 10)
   \<and> (70 < score result \<longrightarrow>
        difficultyLevel (handleExamComplete result exam s) = min (difficultyLevel s + 1) 10)
   \<and> (score result \<le> 70 \<longrightarrow>
        difficultyLevel (handleExamComplete result exam s) = difficultyLevel s)"
proof -
  have init: "difficultyLevel initial_app = 1" by (simp add: initial_app_def)
  then have "1 \<le> difficultyLevel initial_app \<and> difficultyLevel initial_app \<le> 10" by simp
  from app_run_range [OF this] init show ?thesis
    by (simp add: handleExamComplete_level)
qed

theorem difficulty_level_in_range_witness:
  "(70 :: rat) < score \<lparr>score = 80, feedback = []\<rparr>
   \<and> difficultyLevel (handleExamComplete \<lparr>score = 80, feedback = []\<rparr> [] initial_app) = 2
   \<and> score \<lparr>score = 70, feedback = []\<rparr> \<le> (70 :: rat)
   \<and> difficultyLevel (handleExamComplete \<lparr>score = 70, feedback = []\<rparr> [] initial_app) = 1
   \<and> difficultyLevel
        (handleExamComplete \<lparr>score = 100, feedback = []\<rparr> []
           (initial_app\<lparr>difficultyLevel := 10\<rparr>)) = 10"
  using difficulty_level_in_range [of "[]" initial_app "\<lparr>score = 80, feedback = []\<rparr>" "[]"]
    difficulty_level_in_range [of "[]" initial_app "\<lparr>score = 70, feedback = []\<rparr>" "[]"]
    difficulty_level_in_range [of "[]" "initial_app\<lparr>difficultyLevel := 10\<rparr>"
      "\<lparr>score = 100, feedback = []\<rparr>" "[]"]
  by (simp add: initial_app_def)

lemma parsed_reply_throws:
  "(\<exists>e. parsed_reply parse r = Inl e) \<longleftrightarrow>
     (\<exists>e. r = Fails e)
     \<or> (\<exists>response. r = Replies response
           \<and> (text_r response = None
               \<or> (\<exists>t e. text_r response = Some t \<and> parse (trim t) = Inl e)))"
  by (auto simp: parsed_reply_def split: reply.splits option.splits)

text \<open>
  Claim C10.  \<^verbatim>\<open>generateExam\<close> and \<^verbatim>\<open>gradeExam\<close> always resolve.  When the \<^verbatim>\<open>try\<close> block
  throws (the call fails, the response has no text, or the text does not parse),
  \<^verbatim>\<open>generateExam\<close> resolves with the one-question fallback exam, and \<^verbatim>\<open>gradeExam\<close> resolves
  with score 0 and one feedback entry per question of the exam, in order, each marked
  incorrect.  The answers sent for grading hold \<^verbatim>\<open>No answer provided\<close> for every question
  without an answer.
\<close>

theorem exam_service_never_rejects:
  "(\<exists>exam. fst (generateExam parse generateContent difficulty) = Resolved exam)
   \<and> ((\<exists>e. parsed_reply parse (generateContent difficulty) = Inl e) \<longrightarrow>
        fst (generateExam parse generateContent difficulty)
          = Resolved [\<lparr>id_q = 1, questionText = ''Could not generate an exam. Please try again.''\<rparr>])
   \<and> (\<exists>result. fst (gradeExam parse' generateContent' exam answers) = Resolved result)
   \<and> ((\<exists>e. parsed_reply parse' (generateContent' (formattedAnswers exam answers)) = Inl e) \<longrightarrow>
        (\<exists>fb. fst (gradeExam parse' generateContent' exam answers) = Resolved \<lparr>score = 0, feedback = fb\<rparr>
              \<and> length fb = length exam
              \<and> map questionId fb = map id_q exam
              \<and> (\<forall>f \<in> set fb. \<not> isCorrect f)))
   \<and> length (formattedAnswers exam answers) = length exam
   \<and> (\<forall>i < length exam. answers (id_q (exam ! i)) = None \<longrightarrow>
         answer (formattedAnswers exam answers ! i) = ''No answer provided'')"
proof -
  have g1: "\<exists>exam. fst (generateExam parse generateContent difficulty) = Resolved exam"
    by (simp add: generateExam_def split: sum.splits)
  have g2: "(\<exists>e. parsed_reply parse (generateContent difficulty) = Inl e) \<longrightarrow>
        fst (generateExam parse generateContent difficulty)
          = Resolved [\<lparr>id_q = 1, questionText = ''Could not generate an exam. Please try again.''\<rparr>]"
    by (auto simp: generateExam_def fallback_exam_def)
  have r1: "\<exists>result. fst (gradeExam parse' generateContent' exam answers) = Resolved result"
    by (simp add: gradeExam_def split: sum.splits)
  have r2: "(\<exists>e. parsed_reply parse' (generateContent' (formattedAnswers exam answers)) = Inl e) \<longrightarrow>
        (\<exists>fb. fst (gradeExam parse' generateContent' exam answers) = Resolved \<lparr>score = 0, feedback = fb\<rparr>
              \<and> length fb = length exam
              \<and> map questionId fb = map id_q exam
              \<and> (\<forall>f \<in> set fb. \<not> isCorrect f))"
    by (auto simp: gradeExam_def fallback_result_def comp_def)
  have f1: "length (formattedAnswers exam answers) = length exam"
    by (simp add: formattedAnswers_def)
  have f2: "\<forall>i < length exam. answers (id_q (exam ! i)) = None \<longrightarrow>
         answer (formattedAnswers exam answers ! i) = ''No answer provided''"
    by (simp add: formattedAnswers_def)
  from g1 g2 r1 r2 f1 f2 show ?thesis by blast
qed

theorem exam_service_never_rejects_witness:
  "parsed_reply (\<lambda>t. Inl SyntaxError) (Replies \<lparr>text_r = Some ''oops'', candidates = None\<rparr>)
     = (Inl SyntaxError :: js_exn + Exam)
   \<and> fst (generateExam (\<lambda>t. Inl SyntaxError) (\<lambda>d. Replies \<lparr>text_r = Some ''oops'', candidates = None\<rparr>) 3)
       = Resolved [\<lparr>id_q = 1, questionText = ''Could not generate an exam. Please try again.''\<rparr>]
   \<and> parsed_reply (\<lambda>t. Inl SyntaxError) (Fails Error) = (Inl Error :: js_exn + ExamResult)
   \<and> (\<exists>fb. fst (gradeExam (\<lambda>t. Inl SyntaxError) (\<lambda>a. Fails Error)
                  [\<lparr>id_q = 1, questionText = ''What is 2+2?''\<rparr>, \<lparr>id_q = 2, questionText = ''Name a planet.''\<rparr>]
                  [1 \<mapsto> ''4''])
             = Resolved \<lparr>score = 0, feedback = fb\<rparr>
           \<and> length fb = 2 \<and> map questionId fb = [1, 2] \<and> (\<forall>f \<in> set fb. \<not> isCorrect f))
   \<and> [1 \<mapsto> ''4''] (2 :: int) = None
   \<and> answer (formattedAnswers
        [\<lparr>id_q = 1, questionText = ''What is 2+2?''\<rparr>, \<lparr>id_q = 2, questionText = ''Name a planet.''\<rparr>]
        [1 \<mapsto> ''4''] ! 1) = ''No answer provided''"
proof -
  let ?parse = "\<lambda>t :: string. Inl SyntaxError :: js_exn + Exam"
  let ?parse' = "\<lambda>t :: string. Inl SyntaxError :: js_exn + ExamResult"
  let ?gc = "\<lambda>d :: int. Replies \<lparr>text_r = Some ''oops'', candidates = None\<rparr>"
  let ?gc' = "\<lambda>a :: formatted_answer list. Fails Error :: GenerateContentResponse reply"
  let ?exam = "[\<lparr>id_q = 1, questionText = ''What is 2+2?''\<rparr>, \<lparr>id_q = 2, questionText = ''Name a planet.''\<rparr>]"
  let ?answers = "[(1 :: int) \<mapsto> ''4'']"
  have h1: "parsed_reply ?parse (?gc 3) = Inl SyntaxError"
    by (simp add: parsed_reply_def)
  have h2: "parsed_reply ?parse' (?gc' (formattedAnswers ?exam ?answers)) = Inl Error"
    by (simp add: parsed_reply_def)
  have h3: "?answers (id_q (?exam ! 1)) = None" by simp
  note t = exam_service_never_rejects [of ?parse ?gc 3 ?parse' ?gc' ?exam ?answers]
  from t h1 have c1: "fst (generateExam ?parse ?gc 3)
       = Resolved [\<lparr>id_q = 1, questionText = ''Could not generate an exam. Please try again.''\<rparr>]"
    by blast
  from t h2 have c2: "\<exists>fb. fst (gradeExam ?parse' ?gc' ?exam ?answers) = Resolved \<lparr>score = 0, feedback = fb\<rparr>
              \<and> length fb = length ?exam
              \<and> map questionId fb = map id_q ?exam
              \<and> (\<forall>f \<in> set fb. \<not> isCorrect f)"
    by blast
  from t have "\<forall>i < length ?exam. ?answers (id_q (?exam ! i)) = None \<longrightarrow>
         answer (formattedAnswers ?exam ?answers ! i) = ''No answer provided''" by blast
  then have "?answers (id_q (?exam ! 1)) = None \<longrightarrow>
         answer (formattedAnswers ?exam ?answers ! 1) = ''No answer provided''" by simp
  with h3 have c3: "answer (formattedAnswers ?exam ?answers ! 1) = ''No answer provided''" by blast
  from c2 have c2': "\<exists>fb. fst (gradeExam ?parse' ?gc' ?exam ?answers) = Resolved \<lparr>score = 0, feedback = fb\<rparr>
              \<and> length fb = 2 \<and> map questionId fb = [1, 2] \<and> (\<forall>f \<in> set fb. \<not> isCorrect f)"
    by (simp add: numeral_2_eq_2)
  have h3': "?answers (2 :: int) = None" by simp
  from h1 h2 h3' c1 c2' c3 show ?thesis by blast
qed

end
